theory Spec2Isabelle
  imports Main "HOL-Library.AList" "HOL-Library.Word"
begin

section \<open>Python values used by app.py\<close>

text \<open>
  A Python \<^verbatim>\<open>str\<close> is a sequence of Unicode code points, so it is modelled as a list of
  natural numbers; slicing (\<^verbatim>\<open>prompt[:20]\<close>) and equality then count what Python counts.
  String literals of the source are written with \<open>lit\<close>, which reads an ASCII literal as
  its code points.
\<close>

type_synonym str = "nat list"

definition lit :: "string \<Rightarrow> str" where
  "lit s = map of_char s"

text \<open>Exceptions of the source become values.\<close>

datatype exn =
    KeyError str
  | TypeError
  | AttributeError
  | IndexError
  | UnicodeDecodeError
  | LibraryError str

text \<open>
  A Python \<^verbatim>\<open>dict\<close> with string keys keeps insertion order, which the source relies on
  when it iterates (\<^verbatim>\<open>for u in users\<close>): it is an association list. \<^verbatim>\<open>k in d\<close> is
  \<open>contains\<close>, \<^verbatim>\<open>d[k]\<close> is \<open>getitem\<close> (KeyError when absent), \<^verbatim>\<open>d.get(k)\<close> is
  \<open>map_of\<close>, \<^verbatim>\<open>d[k] = v\<close> is \<open>AList.update\<close> (in place when the key exists, appended
  otherwise) and \<^verbatim>\<open>del d[k]\<close> is \<open>AList.delete\<close>.
\<close>

type_synonym 'v pydict = "(str \<times> 'v) list"

definition contains :: "'v pydict \<Rightarrow> str \<Rightarrow> bool" where
  "contains d k = (map_of d k \<noteq> None)"

definition getitem :: "'v pydict \<Rightarrow> str \<Rightarrow> exn + 'v" where
  "getitem d k = (case map_of d k of None \<Rightarrow> Inl (KeyError k) | Some v \<Rightarrow> Inr v)"

definition keys :: "'v pydict \<Rightarrow> str list" where
  "keys d = map fst d"

section \<open>The two flat files\<close>

text \<open>
  \<^verbatim>\<open>users.json\<close> and \<^verbatim>\<open>chat_history.json\<close>. A file is absent, or present but not
  loadable (\<^verbatim>\<open>json.load\<close> raises, which the bare \<^verbatim>\<open>except\<close> turns into \<^verbatim>\<open>{}\<close>), or it
  holds the JSON object last written by \<^verbatim>\<open>json.dump\<close>. Writing replaces the whole file.
\<close>

datatype 'a json_file = Missing | Unreadable | Holds 'a

datatype user_data = Legacy str | Dict "str pydict"

type_synonym users = "user_data pydict"

record chat_message =
  role :: str
  content :: str

type_synonym history = "chat_message list pydict"

definition load_users :: "users json_file \<Rightarrow> users" where
  "load_users f = (case f of Holds us \<Rightarrow> us | Unreadable \<Rightarrow> [] | Missing \<Rightarrow> [])"

definition save_users :: "users \<Rightarrow> users json_file" where
  "save_users us = Holds us"

definition load_history :: "history json_file \<Rightarrow> history" where
  "load_history f = (case f of Holds h \<Rightarrow> h | Unreadable \<Rightarrow> [] | Missing \<Rightarrow> [])"

definition save_history :: "str \<Rightarrow> chat_message list \<Rightarrow> history json_file \<Rightarrow> history json_file" where
  "save_history session_name msgs f =
     (let history = load_history f;
          history = AList.update session_name msgs history
      in Holds history)"

definition delete_chat :: "str \<Rightarrow> history json_file \<Rightarrow> history json_file" where
  "delete_chat session_name f =
     (let history = load_history f
      in if contains history session_name
         then Holds (AList.delete session_name history)
         else f)"

section \<open>Session state, configuration and user feedback\<close>

text \<open>
  \<^verbatim>\<open>st.session_state\<close> on the login page (lines 129 to 134). \<open>reset_username\<close> is not
  initialised by the source: it is \<open>None\<close> until stage 0 of the reset flow assigns it, and
  reading it before that raises AttributeError.
\<close>

record session_state =
  users :: users
  authenticated :: bool
  username :: "str option"
  reset_stage :: int
  generated_otp :: "str option"
  reset_email :: "str option"
  reset_username :: "str option"

definition initial_session :: "users json_file \<Rightarrow> session_state" where
  "initial_session f =
     \<lparr>users = load_users f, authenticated = False, username = None, reset_stage = 0,
      generated_otp = None, reset_email = None, reset_username = None\<rparr>"

record config =
  GOOGLE_API_KEY :: str
  EMAIL_ENABLED :: bool

text \<open>
  What the handlers show with \<^verbatim>\<open>st.error\<close>, \<^verbatim>\<open>st.success\<close> and \<^verbatim>\<open>st.warning\<close>, one
  constructor per message of the source. \<open>Invalid_password\<close> is the spec's
  InvalidCredentials, \<open>User_not_found\<close> its UserNotFound, \<open>Username_already_taken\<close> its
  UsernameTaken, \<open>Email_already_registered\<close> its EmailTaken, \<open>Email_not_found\<close> its
  EmailNotFound, \<open>Invalid_OTP\<close> its InvalidOTP, \<open>Email_features_disabled\<close> its
  FeatureDisabled and \<open>Error_sending_email\<close> its DeliveryFailed. \<open>No_notice\<close> stands for a
  handler that only calls \<^verbatim>\<open>st.rerun()\<close> or does nothing.
\<close>

datatype notice =
    Logged_in_successfully
  | Invalid_password
  | User_not_found
  | Username_already_taken
  | Email_already_registered
  | Account_created
  | Please_fill_in_all_fields
  | Email_features_disabled
  | Email_not_found
  | Error_sending_email str
  | Invalid_OTP
  | Password_Updated
  | No_notice

section \<open>Auth helper functions\<close>

definition stored_password :: "user_data \<Rightarrow> exn + str" where
  "stored_password user_data =
     (case user_data of Dict d \<Rightarrow> getitem d (lit ''password'') | Legacy s \<Rightarrow> Inr s)"

definition login_user ::
  "users json_file \<Rightarrow> session_state \<Rightarrow> str \<Rightarrow> str \<Rightarrow> exn + (session_state \<times> notice)" where
  "login_user f s uname password =
     (let us = load_users f
      in if contains us uname then
           (case getitem us uname of
              Inl e \<Rightarrow> Inl e
            | Inr user_data \<Rightarrow>
                (case stored_password user_data of
                   Inl e \<Rightarrow> Inl e
                 | Inr sp \<Rightarrow>
                     if sp = password
                     then Inr (s\<lparr>authenticated := True, username := Some uname\<rparr>,
                               Logged_in_successfully)
                     else Inr (s, Invalid_password)))
         else Inr (s, User_not_found))"

text \<open>
  The test both email loops make on a key \<open>u\<close>:
  \<^verbatim>\<open>isinstance(users[u], dict) and users[u].get("email") == email\<close>.
\<close>

definition has_email :: "users \<Rightarrow> str \<Rightarrow> str \<Rightarrow> bool" where
  "has_email us email u =
     (case map_of us u of
        Some (Dict d) \<Rightarrow> map_of d (lit ''email'') = Some email
      | Some (Legacy x) \<Rightarrow> False
      | None \<Rightarrow> False)"

definition signup_user ::
  "users json_file \<Rightarrow> session_state \<Rightarrow> str \<Rightarrow> str \<Rightarrow> str
     \<Rightarrow> users json_file \<times> session_state \<times> notice" where
  "signup_user f s uname password email =
     (let us = load_users f
      in if contains us uname then (f, s, Username_already_taken)
         else if list_ex (has_email us email) (keys us) then (f, s, Email_already_registered)
         else (let us' = AList.update uname
                           (Dict [(lit ''password'', password), (lit ''email'', email)]) us
               in (save_users us', s\<lparr>users := us'\<rparr>, Account_created)))"

section \<open>Email and OTP functions\<close>

text \<open>
  \<^verbatim>\<open>str(n)\<close> for an integer: its decimal digits, most significant first, with a minus
  sign for a negative one.
\<close>

fun digits :: "nat \<Rightarrow> str" where
  "digits n = (if n < 10 then [48 + n] else digits (n div 10) @ [48 + n mod 10])"

definition str_int :: "int \<Rightarrow> str" where
  "str_int i = (if i < 0 then 45 # digits (nat (- i)) else digits (nat i))"

text \<open>
  \<^verbatim>\<open>random.randint(a, b)\<close> is \<^verbatim>\<open>a + _randbelow(b - a + 1)\<close>: the bounds are part of
  the call, and the result lies between them whatever the generator does. The generator
  is not part of the repository; what it contributes is a raw draw \<open>x\<close>, which
  \<open>randbelow\<close> brings below the width. (The library does so by rejection sampling, the
  model by the remainder: in both, every value below the width comes up equally often.)
  The source calls it with \<open>a \<le> b\<close> only.
\<close>

definition randbelow :: "nat \<Rightarrow> nat \<Rightarrow> nat" where
  "randbelow n x = x mod n"

definition randint :: "int \<Rightarrow> int \<Rightarrow> nat \<Rightarrow> int" where
  "randint a b x = a + int (randbelow (nat (b - a + 1)) x)"

text \<open>
  \<^verbatim>\<open>send_otp_email\<close> returns \<^verbatim>\<open>True\<close> or a string. The SMTP conversation inside its
  \<^verbatim>\<open>try\<close> is the mail transport, taken as a parameter: given the recipient and the body
  it delivers (\<open>None\<close>) or raises, and then \<^verbatim>\<open>str(e)\<close> is what the function returns.
\<close>

datatype otp_result = RTrue | RStr str

type_synonym smtp = "str \<Rightarrow> str \<Rightarrow> str option"

definition send_otp_email :: "config \<Rightarrow> smtp \<Rightarrow> str \<Rightarrow> str \<Rightarrow> otp_result" where
  "send_otp_email cfg transport target_email otp_code =
     (if \<not> EMAIL_ENABLED cfg then RStr (lit ''Email secrets not configured.'')
      else (case transport target_email
                   (lit ''Your Study Buddy Verification Code is: '' @ otp_code) of
              None \<Rightarrow> RTrue
            | Some e \<Rightarrow> RStr e))"

section \<open>The Forgot Password tab\<close>

text \<open>
  Stage 0, the "Send OTP Code" button (lines 243 to 262). The loop keeps the first key,
  in the order of the file, that passes the email test. \<^verbatim>\<open>if found_user:\<close> tests
  truthiness, so \<^verbatim>\<open>None\<close> and the empty string both take the else branch. \<open>x\<close> is the
  generator's raw draw behind \<^verbatim>\<open>random.randint(100000, 999999)\<close>.
\<close>

definition find_user :: "users \<Rightarrow> str \<Rightarrow> str option" where
  "find_user us email = find (has_email us email) (keys us)"

definition truthy :: "str option \<Rightarrow> bool" where
  "truthy v = (case v of None \<Rightarrow> False | Some x \<Rightarrow> x \<noteq> [])"

definition send_otp_clicked ::
  "config \<Rightarrow> smtp \<Rightarrow> nat \<Rightarrow> users json_file \<Rightarrow> session_state \<Rightarrow> str
     \<Rightarrow> session_state \<times> notice" where
  "send_otp_clicked cfg transport x f s reset_email_input =
     (let us = load_users f;
          found_user = find_user us reset_email_input
      in if truthy found_user then
           (let otp = str_int (randint 100000 999999 x);
                result = send_otp_email cfg transport reset_email_input otp
            in case result of
                 RTrue \<Rightarrow>
                   (s\<lparr>generated_otp := Some otp,
                      reset_email := Some reset_email_input,
                      reset_username := found_user,
                      reset_stage := 1\<rparr>, No_notice)
               | RStr msg \<Rightarrow> (s, Error_sending_email msg))
         else (s, Email_not_found))"

text \<open>Stage 1, the "Verify OTP" and "Back" buttons (lines 268 to 276).\<close>

definition verify_otp_clicked :: "session_state \<Rightarrow> str \<Rightarrow> session_state \<times> notice" where
  "verify_otp_clicked s otp_input =
     (if Some otp_input = generated_otp s then (s\<lparr>reset_stage := 2\<rparr>, No_notice)
      else (s, Invalid_OTP))"

definition back_clicked :: "session_state \<Rightarrow> session_state \<times> notice" where
  "back_clicked s = (s\<lparr>reset_stage := 0\<rparr>, No_notice)"

text \<open>
  Stage 2, the "Update Password" button (lines 283 to 289).
  \<^verbatim>\<open>users[st.session_state.reset_username]["password"] = new_pw_reset\<close> raises
  AttributeError when \<open>reset_username\<close> was never assigned, KeyError when the name is not
  a key of the loaded mapping, and TypeError when the account is a bare string (a
  \<^verbatim>\<open>str\<close> does not support item assignment). Nothing is saved and the stage is not
  changed when it raises.
\<close>

definition update_password_clicked ::
  "users json_file \<Rightarrow> session_state \<Rightarrow> str
     \<Rightarrow> exn + (users json_file \<times> session_state \<times> notice)" where
  "update_password_clicked f s new_pw_reset =
     (let us = load_users f
      in case reset_username s of
           None \<Rightarrow> Inl AttributeError
         | Some uname \<Rightarrow>
             (case getitem us uname of
                Inl e \<Rightarrow> Inl e
              | Inr (Legacy x) \<Rightarrow> Inl TypeError
              | Inr (Dict d) \<Rightarrow>
                  (let us' = AList.update uname
                               (Dict (AList.update (lit ''password'') new_pw_reset d)) us
                   in Inr (save_users us', s\<lparr>reset_stage := 0\<rparr>, Password_Updated))))"

section \<open>The login page\<close>

text \<open>
  One run of the script on the login page is one button click. The page is rendered only
  while \<open>authenticated\<close> is false; the Forgot Password tab shows its buttons only when
  email is enabled, and only those of the current stage. \<open>Logout\<close> is the sidebar button
  of the dashboard (lines 326 to 329), which brings the login page back; the other
  dashboard actions touch neither the accounts file nor these fields of the session
  state.
\<close>

datatype click =
    Log_In str str
  | Create_Account str str str
  | Send_OTP_Code str smtp nat
  | Verify_OTP str
  | Back
  | Update_Password str
  | Logout

type_synonym world = "users json_file \<times> session_state"

fun login_page :: "config \<Rightarrow> click \<Rightarrow> world \<Rightarrow> exn + (world \<times> notice)" where
  "login_page cfg (Log_In uname password) (f, s) =
     (if authenticated s then Inr ((f, s), No_notice)
      else (case login_user f s uname password of
              Inl e \<Rightarrow> Inl e
            | Inr (s', n) \<Rightarrow> Inr ((f, s'), n)))"
| "login_page cfg (Create_Account new_user new_email new_pass) (f, s) =
     (if authenticated s then Inr ((f, s), No_notice)
      else if new_user \<noteq> [] \<and> new_email \<noteq> [] \<and> new_pass \<noteq> []
           then (case signup_user f s new_user new_pass new_email of
                   (f', s', n) \<Rightarrow> Inr ((f', s'), n))
           else Inr ((f, s), Please_fill_in_all_fields))"
| "login_page cfg (Send_OTP_Code reset_email_input transport x) (f, s) =
     (if authenticated s then Inr ((f, s), No_notice)
      else if \<not> EMAIL_ENABLED cfg then Inr ((f, s), Email_features_disabled)
      else if reset_stage s = 0
           then (case send_otp_clicked cfg transport x f s reset_email_input of
                   (s', n) \<Rightarrow> Inr ((f, s'), n))
           else Inr ((f, s), No_notice))"
| "login_page cfg (Verify_OTP otp_input) (f, s) =
     (if authenticated s then Inr ((f, s), No_notice)
      else if \<not> EMAIL_ENABLED cfg then Inr ((f, s), Email_features_disabled)
      else if reset_stage s = 0 then Inr ((f, s), No_notice)
      else if reset_stage s = 1
           then (case verify_otp_clicked s otp_input of (s', n) \<Rightarrow> Inr ((f, s'), n))
           else Inr ((f, s), No_notice))"
| "login_page cfg Back (f, s) =
     (if authenticated s then Inr ((f, s), No_notice)
      else if \<not> EMAIL_ENABLED cfg then Inr ((f, s), Email_features_disabled)
      else if reset_stage s = 0 then Inr ((f, s), No_notice)
      else if reset_stage s = 1
           then (case back_clicked s of (s', n) \<Rightarrow> Inr ((f, s'), n))
           else Inr ((f, s), No_notice))"
| "login_page cfg (Update_Password new_pw_reset) (f, s) =
     (if authenticated s then Inr ((f, s), No_notice)
      else if \<not> EMAIL_ENABLED cfg then Inr ((f, s), Email_features_disabled)
      else if reset_stage s = 0 then Inr ((f, s), No_notice)
      else if reset_stage s = 1 then Inr ((f, s), No_notice)
      else if reset_stage s = 2
           then (case update_password_clicked f s new_pw_reset of
                   Inl e \<Rightarrow> Inl e
                 | Inr (f', s', n) \<Rightarrow> Inr ((f', s'), n))
           else Inr ((f, s), No_notice))"
| "login_page cfg Logout (f, s) =
     (if authenticated s then Inr ((f, s\<lparr>authenticated := False, username := None\<rparr>), No_notice)
      else Inr ((f, s), No_notice))"

text \<open>
  A sequence of clicks. A run that raises shows the traceback and leaves the file and the
  session state as they were: no handler assigns anything before the statement that can
  raise.
\<close>

fun clicks :: "config \<Rightarrow> click list \<Rightarrow> world \<Rightarrow> world" where
  "clicks cfg [] w = w"
| "clicks cfg (c # cs) w =
     clicks cfg cs (case login_page cfg c w of Inl e \<Rightarrow> w | Inr (w', n) \<Rightarrow> w')"

section \<open>AI and file processing\<close>

subsection \<open>Library functions on strings and bytes\<close>

text \<open>
  \<^verbatim>\<open>s.split(sep)\<close> for a one-character separator: the pieces between the separators,
  never an empty list. \<^verbatim>\<open>xs[-1]\<close> is \<open>last_item\<close>, which raises IndexError on an empty
  list.
\<close>

fun str_split :: "nat \<Rightarrow> str \<Rightarrow> str list" where
  "str_split sep [] = [[]]"
| "str_split sep (c # cs) =
     (if c = sep then [] # str_split sep cs
      else (case str_split sep cs of
              [] \<Rightarrow> [[c]]
            | w # ws \<Rightarrow> (c # w) # ws))"

definition last_item :: "'a list \<Rightarrow> exn + 'a" where
  "last_item xs = (case rev xs of [] \<Rightarrow> Inl IndexError | x # _ \<Rightarrow> Inr x)"

text \<open>
  \<^verbatim>\<open>s.lower()\<close>. On a string of ASCII characters it maps \<open>A\<close> to \<open>Z\<close> onto \<open>a\<close> to \<open>z\<close>
  and keeps every other character. On any other string it follows the Unicode case
  tables, which are not part of the repository: that part is the parameter \<open>ul\<close>.
\<close>

definition ascii_lower :: "nat \<Rightarrow> nat" where
  "ascii_lower c = (if 65 \<le> c \<and> c \<le> 90 then c + 32 else c)"

definition str_lower :: "(str \<Rightarrow> str) \<Rightarrow> str \<Rightarrow> str" where
  "str_lower ul s = (if list_all (\<lambda>c. c < 128) s then map ascii_lower s else ul s)"

text \<open>
  \<^verbatim>\<open>b.decode("utf-8")\<close>, strict: every well-formed sequence gives one code point, and
  anything else (a stray continuation byte, an overlong form, a surrogate, a value above
  U+10FFFF, a truncated sequence) raises UnicodeDecodeError for the whole input.
\<close>

type_synonym bytes = "8 word list"

definition continuation :: "nat \<Rightarrow> bool" where
  "continuation b = (128 \<le> b \<and> b \<le> 191)"

definition push :: "nat \<Rightarrow> exn + str \<Rightarrow> exn + str" where
  "push c r = (case r of Inl e \<Rightarrow> Inl e | Inr cs \<Rightarrow> Inr (c # cs))"

fun utf8 :: "nat list \<Rightarrow> exn + str" where
  "utf8 [] = Inr []"
| "utf8 (b # bs) =
     (if b < 128 then push b (utf8 bs)
      else if 194 \<le> b \<and> b \<le> 223 then
        (case bs of
           c1 # rest \<Rightarrow>
             if continuation c1
             then push ((b - 192) * 64 + (c1 - 128)) (utf8 rest)
             else Inl UnicodeDecodeError
         | [] \<Rightarrow> Inl UnicodeDecodeError)
      else if 224 \<le> b \<and> b \<le> 239 then
        (case bs of
           c1 # c2 # rest \<Rightarrow>
             if (if b = 224 then 160 else 128) \<le> c1 \<and> c1 \<le> (if b = 237 then 159 else 191)
                \<and> continuation c2
             then push ((b - 224) * 4096 + (c1 - 128) * 64 + (c2 - 128)) (utf8 rest)
             else Inl UnicodeDecodeError
         | _ \<Rightarrow> Inl UnicodeDecodeError)
      else if 240 \<le> b \<and> b \<le> 244 then
        (case bs of
           c1 # c2 # c3 # rest \<Rightarrow>
             if (if b = 240 then 144 else 128) \<le> c1 \<and> c1 \<le> (if b = 244 then 143 else 191)
                \<and> continuation c2 \<and> continuation c3
             then push ((b - 240) * 262144 + (c1 - 128) * 4096 + (c2 - 128) * 64 + (c3 - 128))
                       (utf8 rest)
             else Inl UnicodeDecodeError
         | _ \<Rightarrow> Inl UnicodeDecodeError)
      else Inl UnicodeDecodeError)"

definition decode_utf8 :: "bytes \<Rightarrow> exn + str" where
  "decode_utf8 bs = utf8 (map unat bs)"

subsection \<open>Extracting the text of an uploaded file\<close>

text \<open>
  The uploaded file gives its declared name and its bytes. The document libraries are
  parameters: each constructor may raise, \<^verbatim>\<open>page.extract_text()\<close> may raise on any page,
  a slide's shape has a text or none (\<^verbatim>\<open>hasattr(shape, "text")\<close>), and
  \<^verbatim>\<open>pd.read_excel(f).to_string()\<close> gives a string or raises.
\<close>

record uploaded_file =
  name :: str
  getvalue :: bytes

record libraries =
  PdfReader :: "bytes \<Rightarrow> exn + (exn + str) list"
  Document :: "bytes \<Rightarrow> exn + str list"
  Presentation :: "bytes \<Rightarrow> exn + str option list list"
  read_excel :: "bytes \<Rightarrow> exn + str"
  unicode_lower :: "str \<Rightarrow> str"

definition file_ext :: "libraries \<Rightarrow> uploaded_file \<Rightarrow> exn + str" where
  "file_ext lib uploaded_file =
     (case last_item (str_split 46 (name uploaded_file)) of
        Inl e \<Rightarrow> Inl e
      | Inr piece \<Rightarrow> Inr (str_lower (unicode_lower lib) piece))"

text \<open>\<^verbatim>\<open>for page in reader.pages: text += page.extract_text()\<close>, stopping where a page raises.\<close>

fun add_pages :: "str \<Rightarrow> (exn + str) list \<Rightarrow> str \<times> exn option" where
  "add_pages text [] = (text, None)"
| "add_pages text (Inl e # pages) = (text, Some e)"
| "add_pages text (Inr t # pages) = add_pages (text @ t) pages"

text \<open>
  The result is the returned text together with the exception that the \<^verbatim>\<open>except\<close>
  clause caught and showed with \<^verbatim>\<open>st.error\<close>, if any; nothing is raised to the caller.
\<close>

definition get_file_text :: "libraries \<Rightarrow> uploaded_file \<Rightarrow> str \<times> exn option" where
  "get_file_text lib uploaded_file =
     (case file_ext lib uploaded_file of
        Inl e \<Rightarrow> ([], Some e)
      | Inr ext \<Rightarrow>
          if ext = lit ''pdf'' then
            (case PdfReader lib (getvalue uploaded_file) of
               Inl e \<Rightarrow> ([], Some e)
             | Inr pages \<Rightarrow> add_pages [] pages)
          else if ext = lit ''docx'' then
            (case Document lib (getvalue uploaded_file) of
               Inl e \<Rightarrow> ([], Some e)
             | Inr paragraphs \<Rightarrow> (concat (map (\<lambda>para. para @ [10]) paragraphs), None))
          else if ext = lit ''pptx'' then
            (case Presentation lib (getvalue uploaded_file) of
               Inl e \<Rightarrow> ([], Some e)
             | Inr slides \<Rightarrow>
                 (concat (map (\<lambda>shape. case shape of None \<Rightarrow> [] | Some t \<Rightarrow> t @ [10])
                              (concat slides)), None))
          else if ext = lit ''xlsx'' then
            (case read_excel lib (getvalue uploaded_file) of
               Inl e \<Rightarrow> ([], Some e)
             | Inr table \<Rightarrow> (table, None))
          else if ext = lit ''txt'' then
            (case decode_utf8 (getvalue uploaded_file) of
               Inl e \<Rightarrow> ([], Some e)
             | Inr t \<Rightarrow> (t, None))
          else ([], None))"

subsection \<open>Asking the generation provider\<close>

text \<open>
  The generation provider is a parameter: given the API key, the model name, the replayed
  history and the message, \<^verbatim>\<open>chat.send_message(full_prompt)\<close> followed by
  \<^verbatim>\<open>response.text\<close> yields the text or raises (network, quota, a blocked or malformed
  response). Configuring the client, building the history list and \<^verbatim>\<open>start_chat\<close> only
  build local objects from strings. The bare \<^verbatim>\<open>except\<close> turns every exception of
  the \<^verbatim>\<open>try\<close> block into the fallback string.
\<close>

record gemini_turn =
  turn_role :: str
  parts :: "str list"

type_synonym provider = "str \<Rightarrow> str \<Rightarrow> gemini_turn list \<Rightarrow> str \<Rightarrow> exn + str"

definition fallback :: str where
  "fallback = [9888, 65039] @ lit '' System busy or error. Please try again.''"

definition gemini_history :: "chat_message list \<Rightarrow> gemini_turn list" where
  "gemini_history history =
     map (\<lambda>msg. \<lparr>turn_role = (if role msg = lit ''user'' then lit ''user'' else lit ''model''),
                 parts = [content msg]\<rparr>) history"

definition get_gemini_response ::
  "provider \<Rightarrow> str \<Rightarrow> str \<Rightarrow> str \<Rightarrow> chat_message list \<Rightarrow> exn + str" where
  "get_gemini_response send_message api_key prompt context_text history =
     (let full_prompt =
            (if context_text \<noteq> []
             then lit ''Context: '' @ context_text @ [10, 10] @ lit ''Question: '' @ prompt
             else prompt)
      in case send_message api_key (lit ''gemini-flash-latest'') (gemini_history history)
                full_prompt of
           Inr text \<Rightarrow> Inr text
         | Inl e \<Rightarrow> Inr fallback)"

section \<open>The AI Chat page\<close>

text \<open>
  The part of \<^verbatim>\<open>st.session_state\<close> the dashboard initialises (lines 321 to 323), and the
  chat input handler (lines 429 to 441). The walrus test makes the handler run only for
  a submitted, non-empty prompt. The second component of the result is an exception
  that escaped the handler, if any; the user message is already appended by then.
\<close>

record chat_state =
  raw_text :: str
  messages :: "chat_message list"
  current_session_name :: str

definition initial_chat :: chat_state where
  "initial_chat = \<lparr>raw_text = [], messages = [], current_session_name = lit ''New Chat''\<rparr>"

definition new_chat_clicked :: "chat_state \<Rightarrow> chat_state" where
  "new_chat_clicked cs = cs\<lparr>messages := [], current_session_name := lit ''New Chat''\<rparr>"

definition ask ::
  "provider \<Rightarrow> config \<Rightarrow> str \<Rightarrow> history json_file \<times> chat_state
     \<Rightarrow> (history json_file \<times> chat_state) \<times> exn option" where
  "ask send_message cfg prompt w =
     (case w of (hf, cs) \<Rightarrow>
        (let msgs = messages cs @ [\<lparr>role = lit ''user'', content = prompt\<rparr>]
         in case get_gemini_response send_message (GOOGLE_API_KEY cfg) prompt (raw_text cs)
                   (butlast msgs) of
              Inl e \<Rightarrow> ((hf, cs\<lparr>messages := msgs\<rparr>), Some e)
            | Inr response \<Rightarrow>
                (let msgs' = msgs @ [\<lparr>role = lit ''assistant'', content = response\<rparr>];
                     session_name =
                       (if current_session_name cs = lit ''New Chat''
                        then lit ''Chat: '' @ take 20 prompt @ lit ''...''
                        else current_session_name cs)
                 in ((save_history session_name msgs' hf,
                      cs\<lparr>messages := msgs', current_session_name := session_name\<rparr>), None))))"

definition chat_input ::
  "provider \<Rightarrow> config \<Rightarrow> str option \<Rightarrow> history json_file \<times> chat_state
     \<Rightarrow> (history json_file \<times> chat_state) \<times> exn option" where
  "chat_input send_message cfg submitted w =
     (case submitted of
        None \<Rightarrow> (w, None)
      | Some prompt \<Rightarrow> if prompt \<noteq> [] then ask send_message cfg prompt w else (w, None))"

section \<open>Example data\<close>

definition example_users :: users where
  "example_users =
     [(lit ''ann'', Dict [(lit ''password'', lit ''pw1''), (lit ''email'', lit ''ann@x.org'')]),
      (lit ''bob'', Legacy (lit ''old''))]"

definition example_session :: session_state where
  "example_session = initial_session (Holds example_users)"

definition example_config :: config where
  "example_config = \<lparr>GOOGLE_API_KEY = lit ''key'', EMAIL_ENABLED = True\<rparr>"

definition always_delivers :: smtp where
  "always_delivers target_email body = None"


definition example_ticket_session :: session_state where
  "example_ticket_session =
     example_session\<lparr>generated_otp := Some (lit ''123456''),
                      reset_email := Some (lit ''ann@x.org''),
                      reset_username := Some (lit ''ann''),
                      reset_stage := 1\<rparr>"

definition echo_provider :: provider where
  "echo_provider api_key model_name turns message = Inr message"

definition failing_provider :: provider where
  "failing_provider api_key model_name turns message = Inl (LibraryError (lit ''quota''))"

definition example_libraries :: libraries where
  "example_libraries =
     \<lparr>PdfReader = (\<lambda>b. Inl (LibraryError (lit ''pdf''))),
      Document = (\<lambda>b. Inl (LibraryError (lit ''docx''))),
      Presentation = (\<lambda>b. Inl (LibraryError (lit ''pptx''))),
      read_excel = (\<lambda>b. Inl (LibraryError (lit ''xlsx''))),
      unicode_lower = (\<lambda>s. s)\<rparr>"

definition hello_txt :: uploaded_file where
  "hello_txt = \<lparr>name = lit ''Notes.TXT'', getvalue = [104, 101, 108, 108, 111]\<rparr>"

definition hello_xyz :: uploaded_file where
  "hello_xyz = \<lparr>name = lit ''notes.xyz'', getvalue = [104, 101, 108, 108, 111]\<rparr>"

section \<open>Notions used to state the properties\<close>

text \<open>The number a string of decimal digits denotes.\<close>

definition decimal_value :: "str \<Rightarrow> nat" where
  "decimal_value ds = foldl (\<lambda>a c. 10 * a + (c - 48)) 0 ds"

text \<open>
  While a reset is in progress (stage 1 or 2) the ticket's username is a key of the
  accounts file and names a dict-shaped account.
\<close>

definition ticket_names_dict :: "world \<Rightarrow> bool" where
  "ticket_names_dict w =
     (case w of (f, s) \<Rightarrow>
        reset_stage s = 0 \<or>
        (case reset_username s of
           None \<Rightarrow> False
         | Some u \<Rightarrow> (case map_of (load_users f) u of
                        Some (Dict d) \<Rightarrow> True
                      | Some (Legacy x) \<Rightarrow> False
                      | None \<Rightarrow> False)))"

section \<open>History Store\<close>

text \<open>
  C7. For every session name \<open>n\<close> and message list \<open>m\<close>, and whatever the history file
  was before (absent, unreadable or holding sessions), \<^verbatim>\<open>save_history(n, m)\<close> followed by
  \<^verbatim>\<open>load_history()\<close> gives a mapping in which \<open>n\<close> maps to \<open>m\<close> itself (same messages,
  same order) and every other session name maps to what \<^verbatim>\<open>load_history()\<close> gave for it
  before the save.
\<close>

theorem save_then_load_history:
  "map_of (load_history (save_history n m f)) n = Some m \<and>
   (\<forall>n'. n' \<noteq> n \<longrightarrow>
      map_of (load_history (save_history n m f)) n' = map_of (load_history f) n')"
  by (simp add: save_history_def load_history_def update_conv')

theorem save_then_load_history_witness:
  "map_of (load_history (save_history (lit ''b'')
       [\<lparr>role = lit ''user'', content = lit ''hi''\<rparr>, \<lparr>role = lit ''assistant'', content = lit ''yo''\<rparr>]
       (Holds [(lit ''a'', [\<lparr>role = lit ''user'', content = lit ''q''\<rparr>])]))) (lit ''b'')
     = Some [\<lparr>role = lit ''user'', content = lit ''hi''\<rparr>, \<lparr>role = lit ''assistant'', content = lit ''yo''\<rparr>]
   \<and> lit ''a'' \<noteq> lit ''b''
   \<and> map_of (load_history (save_history (lit ''b'')
       [\<lparr>role = lit ''user'', content = lit ''hi''\<rparr>, \<lparr>role = lit ''assistant'', content = lit ''yo''\<rparr>]
       (Holds [(lit ''a'', [\<lparr>role = lit ''user'', content = lit ''q''\<rparr>])]))) (lit ''a'')
     = Some [\<lparr>role = lit ''user'', content = lit ''q''\<rparr>]"
proof -
  have ne: "lit ''a'' \<noteq> lit ''b''"
    by (simp add: lit_def)
  have old: "map_of (load_history (Holds [(lit ''a'', [\<lparr>role = lit ''user'', content = lit ''q''\<rparr>])])) (lit ''a'')
               = Some [\<lparr>role = lit ''user'', content = lit ''q''\<rparr>]"
    by (simp add: load_history_def)
  from save_then_load_history
    [of "lit ''b''"
        "[\<lparr>role = lit ''user'', content = lit ''hi''\<rparr>, \<lparr>role = lit ''assistant'', content = lit ''yo''\<rparr>]"
        "Holds [(lit ''a'', [\<lparr>role = lit ''user'', content = lit ''q''\<rparr>])]"]
  show ?thesis
    using ne old by simp
qed


section \<open>Signup and login\<close>

lemma update_fresh: "k \<notin> fst ` set al \<Longrightarrow> AList.update k v al = al @ [(k, v)]"
  by (induction al) auto

lemma contains_iff: "contains d k \<longleftrightarrow> k \<in> fst ` set d"
  by (simp add: contains_def map_of_eq_None_iff)

lemma email_loop_iff:
  "list_ex (has_email us email) (keys us) \<longleftrightarrow>
     (\<exists>u d. map_of us u = Some (Dict d) \<and> map_of d (lit ''email'') = Some email)"
proof
  assume "list_ex (has_email us email) (keys us)"
  then obtain u where "has_email us email u"
    by (auto simp: list_ex_iff)
  then show "\<exists>u d. map_of us u = Some (Dict d) \<and> map_of d (lit ''email'') = Some email"
    by (auto simp: has_email_def split: option.splits user_data.splits)
next
  assume "\<exists>u d. map_of us u = Some (Dict d) \<and> map_of d (lit ''email'') = Some email"
  then obtain u d where u: "map_of us u = Some (Dict d)" "map_of d (lit ''email'') = Some email"
    by blast
  from u(1) have "u \<in> set (keys us)"
    by (auto simp: keys_def dest: map_of_SomeD intro: rev_image_eqI)
  moreover from u have "has_email us email u"
    by (simp add: has_email_def)
  ultimately show "list_ex (has_email us email) (keys us)"
    by (auto simp: list_ex_iff)
qed

text \<open>
  C3. For every state of the accounts file: signup with a username that is already a key
  reports "Username already taken!" and returns the file and the session state as they
  were (no save); signup with a new username whose email equals (code point for code
  point) the email field of some dict-shaped account reports "Email already registered!",
  again without saving; otherwise, and only then, the account
  \<^verbatim>\<open>{"password": password, "email": email}\<close> is added after the existing accounts and the
  whole mapping is written.
\<close>

theorem signup_user_cases:
  "(contains (load_users f) u \<longrightarrow> signup_user f s u p e = (f, s, Username_already_taken)) \<and>
   (\<not> contains (load_users f) u \<and>
      (\<exists>u' d. u' \<noteq> u \<and> map_of (load_users f) u' = Some (Dict d) \<and>
               map_of d (lit ''email'') = Some e)
      \<longrightarrow> signup_user f s u p e = (f, s, Email_already_registered)) \<and>
   (\<not> contains (load_users f) u \<and>
      \<not> (\<exists>u' d. u' \<noteq> u \<and> map_of (load_users f) u' = Some (Dict d) \<and>
                 map_of d (lit ''email'') = Some e)
      \<longrightarrow> signup_user f s u p e =
            (Holds (load_users f @ [(u, Dict [(lit ''password'', p), (lit ''email'', e)])]),
             s\<lparr>users := load_users f @ [(u, Dict [(lit ''password'', p), (lit ''email'', e)])]\<rparr>,
             Account_created)) \<and>
   ((\<exists>f' s'. signup_user f s u p e = (f', s', Account_created)) \<longleftrightarrow>
      \<not> contains (load_users f) u \<and>
      \<not> (\<exists>u' d. u' \<noteq> u \<and> map_of (load_users f) u' = Some (Dict d) \<and>
                 map_of d (lit ''email'') = Some e))"
proof -
  let ?us = "load_users f"
  let ?dup = "\<exists>u' d. u' \<noteq> u \<and> map_of ?us u' = Some (Dict d) \<and> map_of d (lit ''email'') = Some e"
  let ?new = "?us @ [(u, Dict [(lit ''password'', p), (lit ''email'', e)])]"
  show ?thesis
  proof (cases "contains ?us u")
    case True
    then show ?thesis
      by (simp add: signup_user_def)
  next
    case False
    then have none: "map_of ?us u = None"
      by (simp add: contains_def)
    have same: "?dup \<longleftrightarrow> list_ex (has_email ?us e) (keys ?us)"
    proof
      assume ?dup
      then show "list_ex (has_email ?us e) (keys ?us)"
        unfolding email_loop_iff by blast
    next
      assume "list_ex (has_email ?us e) (keys ?us)"
      then obtain u' d where d: "map_of ?us u' = Some (Dict d)" "map_of d (lit ''email'') = Some e"
        unfolding email_loop_iff by blast
      with none have "u' \<noteq> u"
        by auto
      with d show ?dup
        by blast
    qed
    have fresh: "AList.update u v ?us = ?us @ [(u, v)]" for v
      using False by (simp add: contains_iff update_fresh)
    show ?thesis
    proof (cases ?dup)
      case True
      with same have "list_ex (has_email ?us e) (keys ?us)"
        by blast
      with False have "signup_user f s u p e = (f, s, Email_already_registered)"
        by (simp add: signup_user_def Let_def)
      with True False show ?thesis
        by simp
    next
      case nodup: False
      with same have "\<not> list_ex (has_email ?us e) (keys ?us)"
        by blast
      with False have "signup_user f s u p e = (Holds ?new, s\<lparr>users := ?new\<rparr>, Account_created)"
        by (simp add: signup_user_def Let_def save_users_def fresh)
      with nodup False show ?thesis
        by simp
    qed
  qed
qed

theorem signup_user_cases_witness:
  "contains (load_users (Holds example_users)) (lit ''ann'') \<and>
   signup_user (Holds example_users) example_session (lit ''ann'') (lit ''q'') (lit ''new@x.org'')
     = (Holds example_users, example_session, Username_already_taken) \<and>
   \<not> contains (load_users (Holds example_users)) (lit ''cy'') \<and>
   signup_user (Holds example_users) example_session (lit ''cy'') (lit ''q'') (lit ''ann@x.org'')
     = (Holds example_users, example_session, Email_already_registered) \<and>
   signup_user (Holds example_users) example_session (lit ''cy'') (lit ''q'') (lit ''cy@x.org'')
     = (Holds (example_users @
               [(lit ''cy'', Dict [(lit ''password'', lit ''q''), (lit ''email'', lit ''cy@x.org'')])]),
        example_session\<lparr>users := example_users @
               [(lit ''cy'', Dict [(lit ''password'', lit ''q''), (lit ''email'', lit ''cy@x.org'')])]\<rparr>,
        Account_created)"
proof -
  let ?f = "Holds example_users"
  have ann: "contains (load_users ?f) (lit ''ann'')"
    by (simp add: contains_def load_users_def example_users_def lit_def)
  have cy: "\<not> contains (load_users ?f) (lit ''cy'')"
    by (simp add: contains_def load_users_def example_users_def lit_def)
  have dup: "\<exists>u' d. u' \<noteq> lit ''cy'' \<and> map_of (load_users ?f) u' = Some (Dict d) \<and>
                    map_of d (lit ''email'') = Some (lit ''ann@x.org'')"
    by (rule exI [of _ "lit ''ann''"],
        rule exI [of _ "[(lit ''password'', lit ''pw1''), (lit ''email'', lit ''ann@x.org'')]"])
       (simp add: load_users_def example_users_def lit_def)
  have nodup: "\<not> (\<exists>u' d. u' \<noteq> lit ''cy'' \<and> map_of (load_users ?f) u' = Some (Dict d) \<and>
                    map_of d (lit ''email'') = Some (lit ''cy@x.org''))"
    by (auto simp: load_users_def example_users_def lit_def split: if_splits)
  have lu: "load_users ?f = example_users"
    by (simp add: load_users_def)
  from signup_user_cases [of ?f "lit ''ann''" example_session "lit ''q''" "lit ''new@x.org''"] ann
  have a: "signup_user ?f example_session (lit ''ann'') (lit ''q'') (lit ''new@x.org'')
             = (?f, example_session, Username_already_taken)"
    by blast
  from signup_user_cases [of ?f "lit ''cy''" example_session "lit ''q''" "lit ''ann@x.org''"] cy dup
  have b: "signup_user ?f example_session (lit ''cy'') (lit ''q'') (lit ''ann@x.org'')
             = (?f, example_session, Email_already_registered)"
    by blast
  from signup_user_cases [of ?f "lit ''cy''" example_session "lit ''q''" "lit ''cy@x.org''"] cy nodup
  have c: "signup_user ?f example_session (lit ''cy'') (lit ''q'') (lit ''cy@x.org'')
     = (Holds (load_users ?f @
               [(lit ''cy'', Dict [(lit ''password'', lit ''q''), (lit ''email'', lit ''cy@x.org'')])]),
        example_session\<lparr>users := load_users ?f @
               [(lit ''cy'', Dict [(lit ''password'', lit ''q''), (lit ''email'', lit ''cy@x.org'')])]\<rparr>,
        Account_created)"
    by blast
  from ann a cy b c show ?thesis
    unfolding lu by blast
qed

lemma signup_created:
  assumes "signup_user f s u p e = (f', s', Account_created)"
  shows "f' = Holds (AList.update u (Dict [(lit ''password'', p), (lit ''email'', e)]) (load_users f))"
  using assms by (auto simp: signup_user_def Let_def save_users_def split: if_splits)

lemma login_user_found:
  assumes "map_of (load_users f) u = Some ud"
  shows "login_user f s u p =
           (case stored_password ud of
              Inl e \<Rightarrow> Inl e
            | Inr sp \<Rightarrow> if sp = p
                        then Inr (s\<lparr>authenticated := True, username := Some u\<rparr>, Logged_in_successfully)
                        else Inr (s, Invalid_password))"
  using assms by (simp add: login_user_def contains_def getitem_def)

lemma login_user_absent:
  assumes "map_of (load_users f) u = None"
  shows "login_user f s u p = Inr (s, User_not_found)"
  using assms by (simp add: login_user_def contains_def)

text \<open>
  C4. For every state of the accounts file, login shows "Logged in successfully!" (and
  marks the session authenticated under that username) exactly when the username is a
  key and its stored password equals the supplied one; the stored password is the bare
  string of a legacy account and the "password" field of a dict-shaped one. A username
  that is a key with a different stored password gives "Invalid password", a username
  that is not a key gives "User not found", and a login with the credentials of a signup
  that created the account authenticates.
\<close>

theorem login_user_cases:
  "(\<not> contains (load_users f) u \<longrightarrow> login_user f s u p = Inr (s, User_not_found)) \<and>
   (\<forall>ud sp. map_of (load_users f) u = Some ud \<and> stored_password ud = Inr sp \<and> sp \<noteq> p
      \<longrightarrow> login_user f s u p = Inr (s, Invalid_password)) \<and>
   (\<forall>ud. map_of (load_users f) u = Some ud \<and> stored_password ud = Inr p
      \<longrightarrow> login_user f s u p =
            Inr (s\<lparr>authenticated := True, username := Some u\<rparr>, Logged_in_successfully)) \<and>
   ((\<exists>s'. login_user f s u p = Inr (s', Logged_in_successfully)) \<longleftrightarrow>
      (\<exists>ud. map_of (load_users f) u = Some ud \<and> stored_password ud = Inr p)) \<and>
   stored_password (Legacy x) = Inr x \<and>
   (\<forall>d pw. map_of d (lit ''password'') = Some pw \<longrightarrow> stored_password (Dict d) = Inr pw) \<and>
   (\<forall>f' s' s''. signup_user f s u p e = (f', s', Account_created)
      \<longrightarrow> login_user f' s'' u p =
            Inr (s''\<lparr>authenticated := True, username := Some u\<rparr>, Logged_in_successfully))"
proof (intro conjI allI impI)
  show "login_user f s u p = Inr (s, User_not_found)" if "\<not> contains (load_users f) u"
    using that by (simp add: login_user_absent contains_def)
next
  fix ud sp
  assume "map_of (load_users f) u = Some ud \<and> stored_password ud = Inr sp \<and> sp \<noteq> p"
  then show "login_user f s u p = Inr (s, Invalid_password)"
    by (simp add: login_user_found)
next
  fix ud
  assume "map_of (load_users f) u = Some ud \<and> stored_password ud = Inr p"
  then show "login_user f s u p =
      Inr (s\<lparr>authenticated := True, username := Some u\<rparr>, Logged_in_successfully)"
    by (simp add: login_user_found)
next
  show "(\<exists>s'. login_user f s u p = Inr (s', Logged_in_successfully)) \<longleftrightarrow>
        (\<exists>ud. map_of (load_users f) u = Some ud \<and> stored_password ud = Inr p)"
  proof (cases "map_of (load_users f) u")
    case None
    then show ?thesis
      by (simp add: login_user_absent)
  next
    case (Some ud)
    then show ?thesis
      by (cases "stored_password ud") (auto simp: login_user_found)
  qed
next
  show "stored_password (Legacy x) = Inr x"
    by (simp add: stored_password_def)
next
  fix d :: "str pydict" and pw
  assume "map_of d (lit ''password'') = Some pw"
  then show "stored_password (Dict d) = Inr pw"
    by (simp add: stored_password_def getitem_def)
next
  fix f' s' s''
  assume "signup_user f s u p e = (f', s', Account_created)"
  then have f': "f' = Holds (AList.update u (Dict [(lit ''password'', p), (lit ''email'', e)]) (load_users f))"
    by (rule signup_created)
  have "map_of (load_users f') u = Some (Dict [(lit ''password'', p), (lit ''email'', e)])"
    by (simp add: f' load_users_def update_conv')
  moreover have "stored_password (Dict [(lit ''password'', p), (lit ''email'', e)]) = Inr p"
    by (simp add: stored_password_def getitem_def)
  ultimately show "login_user f' s'' u p =
      Inr (s''\<lparr>authenticated := True, username := Some u\<rparr>, Logged_in_successfully)"
    by (simp add: login_user_found)
qed

theorem login_user_cases_witness:
  "\<not> contains (load_users (Holds example_users)) (lit ''cy'') \<and>
   login_user (Holds example_users) example_session (lit ''cy'') (lit ''pw1'')
     = Inr (example_session, User_not_found) \<and>
   map_of (load_users (Holds example_users)) (lit ''bob'') = Some (Legacy (lit ''old'')) \<and>
   lit ''old'' \<noteq> lit ''new'' \<and>
   login_user (Holds example_users) example_session (lit ''bob'') (lit ''new'')
     = Inr (example_session, Invalid_password) \<and>
   login_user (Holds example_users) example_session (lit ''bob'') (lit ''old'')
     = Inr (example_session\<lparr>authenticated := True, username := Some (lit ''bob'')\<rparr>,
            Logged_in_successfully) \<and>
   stored_password (Dict [(lit ''password'', lit ''pw1''), (lit ''email'', lit ''ann@x.org'')])
     = Inr (lit ''pw1'') \<and>
   signup_user Missing (initial_session Missing) (lit ''cy'') (lit ''q'') (lit ''cy@x.org'')
     = (Holds [(lit ''cy'', Dict [(lit ''password'', lit ''q''), (lit ''email'', lit ''cy@x.org'')])],
        (initial_session Missing)\<lparr>users :=
           [(lit ''cy'', Dict [(lit ''password'', lit ''q''), (lit ''email'', lit ''cy@x.org'')])]\<rparr>,
        Account_created) \<and>
   login_user (Holds [(lit ''cy'', Dict [(lit ''password'', lit ''q''), (lit ''email'', lit ''cy@x.org'')])])
       (initial_session Missing) (lit ''cy'') (lit ''q'')
     = Inr ((initial_session Missing)\<lparr>authenticated := True, username := Some (lit ''cy'')\<rparr>,
            Logged_in_successfully)"
proof -
  let ?f = "Holds example_users"
  let ?s = example_session
  have cy: "\<not> contains (load_users ?f) (lit ''cy'')"
    by (simp add: contains_def load_users_def example_users_def lit_def)
  have bob: "map_of (load_users ?f) (lit ''bob'') = Some (Legacy (lit ''old''))"
    by (simp add: load_users_def example_users_def lit_def)
  have ne: "lit ''old'' \<noteq> lit ''new''"
    by (simp add: lit_def)
  have leg: "stored_password (Legacy (lit ''old'')) = Inr (lit ''old'')"
    using login_user_cases [where x = "lit ''old''"] by blast
  have pw: "map_of [(lit ''password'', lit ''pw1''), (lit ''email'', lit ''ann@x.org'')] (lit ''password'')
              = Some (lit ''pw1'')"
    by simp
  have su: "signup_user Missing (initial_session Missing) (lit ''cy'') (lit ''q'') (lit ''cy@x.org'')
     = (Holds [(lit ''cy'', Dict [(lit ''password'', lit ''q''), (lit ''email'', lit ''cy@x.org'')])],
        (initial_session Missing)\<lparr>users :=
           [(lit ''cy'', Dict [(lit ''password'', lit ''q''), (lit ''email'', lit ''cy@x.org'')])]\<rparr>,
        Account_created)"
    by (simp add: signup_user_def load_users_def contains_def keys_def save_users_def Let_def)
  have a: "login_user ?f ?s (lit ''cy'') (lit ''pw1'') = Inr (?s, User_not_found)"
    using login_user_cases [where f = ?f and u = "lit ''cy''" and s = ?s and p = "lit ''pw1''"] cy
    by blast
  have b: "login_user ?f ?s (lit ''bob'') (lit ''new'') = Inr (?s, Invalid_password)"
    using login_user_cases [where f = ?f and u = "lit ''bob''" and s = ?s and p = "lit ''new''"]
      bob leg ne by blast
  have c: "login_user ?f ?s (lit ''bob'') (lit ''old'')
             = Inr (?s\<lparr>authenticated := True, username := Some (lit ''bob'')\<rparr>, Logged_in_successfully)"
    using login_user_cases [where f = ?f and u = "lit ''bob''" and s = ?s and p = "lit ''old''"]
      bob leg by blast
  have d: "stored_password (Dict [(lit ''password'', lit ''pw1''), (lit ''email'', lit ''ann@x.org'')])
             = Inr (lit ''pw1'')"
    using login_user_cases [where x = "[]"] pw by blast
  have e: "login_user (Holds [(lit ''cy'', Dict [(lit ''password'', lit ''q''), (lit ''email'', lit ''cy@x.org'')])])
       (initial_session Missing) (lit ''cy'') (lit ''q'')
     = Inr ((initial_session Missing)\<lparr>authenticated := True, username := Some (lit ''cy'')\<rparr>,
            Logged_in_successfully)"
    using login_user_cases [where f = Missing and s = "initial_session Missing" and u = "lit ''cy''"
        and p = "lit ''q''" and e = "lit ''cy@x.org''"] su by blast
  from cy a bob ne b c d su e show ?thesis
    by blast
qed

section \<open>Password reset\<close>

lemma digits_small: "n < 10 \<Longrightarrow> digits n = [48 + n]"
  by simp

lemma digits_large: "\<not> n < 10 \<Longrightarrow> digits n = digits (n div 10) @ [48 + n mod 10]"
  by simp

declare digits.simps [simp del]

lemma digits_length: "10 ^ k \<le> n \<Longrightarrow> n < 10 ^ Suc k \<Longrightarrow> length (digits n) = Suc k"
proof (induction k arbitrary: n)
  case 0
  then show ?case
    by (simp add: digits_small)
next
  case (Suc k)
  have "(1::nat) \<le> 10 ^ k"
    by simp
  then have "(10::nat) \<le> 10 ^ Suc k"
    by simp
  with Suc.prems(1) have big: "\<not> n < 10"
    by linarith
  from Suc.prems have "10 ^ k \<le> n div 10" "n div 10 < 10 ^ Suc k"
    by (simp_all add: less_mult_imp_div_less mult.commute)
  then have "length (digits (n div 10)) = Suc k"
    by (rule Suc.IH)
  with big show ?case
    by (simp add: digits_large)
qed

lemma digits_range: "c \<in> set (digits n) \<Longrightarrow> 48 \<le> c \<and> c \<le> 57"
proof (induction n arbitrary: c rule: digits.induct)
  case (1 n)
  show ?case
  proof (cases "n < 10")
    case True
    with "1.prems" show ?thesis
      by (simp add: digits_small)
  next
    case False
    have "n mod 10 < 10"
      by simp
    with False "1.prems" "1.IH" show ?thesis
      by (auto simp: digits_large)
  qed
qed

lemma digits_nonempty: "digits n \<noteq> []"
  by (cases "n < 10") (simp_all add: digits_small digits_large)

lemma digits_no_leading_zero: "0 < n \<Longrightarrow> hd (digits n) \<noteq> 48"
proof (induction n rule: digits.induct)
  case (1 n)
  show ?case
  proof (cases "n < 10")
    case True
    with "1.prems" show ?thesis
      by (simp add: digits_small)
  next
    case False
    then have "0 < n div 10"
      by (simp add: div_greater_zero_iff)
    with False "1.IH" have "hd (digits (n div 10)) \<noteq> 48"
      by simp
    with False show ?thesis
      by (simp add: digits_large digits_nonempty)
  qed
qed

lemma digits_value: "decimal_value (digits n) = n"
proof (induction n rule: digits.induct)
  case (1 n)
  show ?case
  proof (cases "n < 10")
    case True
    then show ?thesis
      by (simp add: digits_small decimal_value_def)
  next
    case False
    with "1.IH" have "decimal_value (digits (n div 10)) = n div 10"
      by simp
    with False show ?thesis
      by (simp add: digits_large decimal_value_def)
  qed
qed

lemma otp_shape:
  assumes "100000 \<le> r" "r \<le> 999999"
  shows "length (str_int r) = 6"
    and "\<forall>c \<in> set (str_int r). 48 \<le> c \<and> c \<le> 57"
    and "hd (str_int r) \<noteq> 48"
    and "int (decimal_value (str_int r)) = r"
proof -
  from assms have s: "str_int r = digits (nat r)"
    by (simp add: str_int_def)
  from assms have "10 ^ 5 \<le> nat r" "nat r < 10 ^ Suc 5"
    by simp_all
  then have "length (digits (nat r)) = Suc 5"
    by (rule digits_length)
  then show "length (str_int r) = 6"
    by (simp add: s)
  show "\<forall>c \<in> set (str_int r). 48 \<le> c \<and> c \<le> 57"
    unfolding s using digits_range by blast
  from assms have "0 < nat r"
    by simp
  then show "hd (str_int r) \<noteq> 48"
    unfolding s by (rule digits_no_leading_zero)
  from assms show "int (decimal_value (str_int r)) = r"
    by (simp add: s digits_value)
qed

lemma randint_range:
  assumes "a \<le> b"
  shows "a \<le> randint a b x" and "randint a b x \<le> b"
proof -
  from assms have pos: "0 < nat (b - a + 1)"
    by simp
  then have "x mod nat (b - a + 1) < nat (b - a + 1)"
    by (rule mod_less_divisor)
  then have "int (x mod nat (b - a + 1)) < b - a + 1"
    using assms by linarith
  then show "randint a b x \<le> b"
    by (simp add: randint_def randbelow_def)
  show "a \<le> randint a b x"
    by (simp add: randint_def)
qed

lemma randint_periodic:
  "randint a b (x + nat (b - a + 1)) = randint a b x"
  by (simp add: randint_def randbelow_def)

lemma randint_small:
  "x < nat (b - a + 1) \<Longrightarrow> randint a b x = a + int x"
  by (simp add: randint_def randbelow_def)

lemma randint_bij:
  assumes "a \<le> b"
  shows "bij_betw (randint a b) {0..<nat (b - a + 1)} {a..b}"
proof (rule bij_betwI')
  fix x y
  assume "x \<in> {0..<nat (b - a + 1)}" "y \<in> {0..<nat (b - a + 1)}"
  then show "(randint a b x = randint a b y) = (x = y)"
    by (simp add: randint_small)
next
  fix x
  assume "x \<in> {0..<nat (b - a + 1)}"
  with assms show "randint a b x \<in> {a..b}"
    by (simp add: randint_range)
next
  fix v
  assume v: "v \<in> {a..b}"
  then have less: "nat (v - a) < nat (b - a + 1)"
    by auto
  with v have "randint a b (nat (v - a)) = v"
    by (simp add: randint_small)
  with less show "\<exists>x \<in> {0..<nat (b - a + 1)}. v = randint a b x"
    by (intro bexI [of _ "nat (v - a)"]) simp_all
qed

lemma otp_draw:
  "100000 \<le> randint 100000 999999 x" "randint 100000 999999 x \<le> 999999"
  by (simp_all add: randint_range)

lemma find_user_None:
  "find_user us em = None \<longleftrightarrow>
     \<not> (\<exists>u d. map_of us u = Some (Dict d) \<and> map_of d (lit ''email'') = Some em)"
  unfolding find_user_def find_None_iff email_loop_iff [symmetric] list_ex_iff by blast

lemma find_user_Some:
  assumes "find_user us em = Some u"
  shows "\<exists>d. map_of us u = Some (Dict d) \<and> map_of d (lit ''email'') = Some em"
proof -
  from assms have "has_email us em u"
    by (auto simp: find_user_def find_Some_iff)
  then show ?thesis
    by (auto simp: has_email_def split: option.splits user_data.splits)
qed

text \<open>
  What the reset handlers do at stages 0 and 1, with email enabled and the login page
  shown. At stage 0, "Send OTP Code" with an email that no dict-shaped account carries
  shows "Email not found." and leaves the session state, hence stage 0, as it was; a
  legacy bare-string account never passes the email test. The code is the decimal string
  of \<^verbatim>\<open>random.randint(100000, 999999)\<close>, which lies in that range for every draw of the
  generator: six characters, all decimal digits, the first not zero. The draws below
  900000 correspond one to one to the integers of the range and the result repeats with
  period 900000, so every code comes up equally often. When the first account in file
  order that carries the email has a non-empty username and the transport delivers, the
  stage becomes 1 with the code, the email and that username stored in the session
  state. At stage 1, "Verify OTP" with a code other than the stored one shows
  "Invalid OTP." and leaves the state as it was, and the stored code itself moves the
  stage to 2.
\<close>

theorem reset_request_and_verify:
  "(\<not> authenticated s \<and> EMAIL_ENABLED cfg \<and> reset_stage s = 0 \<and>
      \<not> (\<exists>u d. map_of (load_users f) u = Some (Dict d) \<and> map_of d (lit ''email'') = Some em)
      \<longrightarrow> login_page cfg (Send_OTP_Code em tr x) (f, s) = Inr ((f, s), Email_not_found)) \<and>
   (\<forall>u y. map_of (load_users f) u = Some (Legacy y) \<longrightarrow> \<not> has_email (load_users f) em u) \<and>
   (\<forall>u. find_user (load_users f) em = Some u
      \<longrightarrow> (\<exists>d. map_of (load_users f) u = Some (Dict d) \<and> map_of d (lit ''email'') = Some em)) \<and>
   100000 \<le> randint 100000 999999 x \<and> randint 100000 999999 x \<le> 999999 \<and>
   length (str_int (randint 100000 999999 x)) = 6 \<and>
   (\<forall>c \<in> set (str_int (randint 100000 999999 x)). 48 \<le> c \<and> c \<le> 57) \<and>
   hd (str_int (randint 100000 999999 x)) \<noteq> 48 \<and>
   int (decimal_value (str_int (randint 100000 999999 x))) = randint 100000 999999 x \<and>
   bij_betw (randint 100000 999999) {0..<900000} {100000..999999} \<and>
   randint 100000 999999 (x + 900000) = randint 100000 999999 x \<and>
   (\<forall>u. \<not> authenticated s \<and> EMAIL_ENABLED cfg \<and> reset_stage s = 0 \<and>
        find_user (load_users f) em = Some u \<and> u \<noteq> [] \<and>
        tr em (lit ''Your Study Buddy Verification Code is: '' @ str_int (randint 100000 999999 x))
          = None
      \<longrightarrow> login_page cfg (Send_OTP_Code em tr x) (f, s) =
            Inr ((f, s\<lparr>generated_otp := Some (str_int (randint 100000 999999 x)),
                        reset_email := Some em,
                        reset_username := Some u, reset_stage := 1\<rparr>), No_notice)) \<and>
   (\<not> authenticated s \<and> EMAIL_ENABLED cfg \<and> reset_stage s = 1 \<and> Some code \<noteq> generated_otp s
      \<longrightarrow> login_page cfg (Verify_OTP code) (f, s) = Inr ((f, s), Invalid_OTP)) \<and>
   (\<not> authenticated s \<and> EMAIL_ENABLED cfg \<and> reset_stage s = 1 \<and> Some code = generated_otp s
      \<longrightarrow> login_page cfg (Verify_OTP code) (f, s) = Inr ((f, s\<lparr>reset_stage := 2\<rparr>), No_notice))"
proof (intro conjI allI impI)
  assume a: "\<not> authenticated s \<and> EMAIL_ENABLED cfg \<and> reset_stage s = 0 \<and>
      \<not> (\<exists>u d. map_of (load_users f) u = Some (Dict d) \<and> map_of d (lit ''email'') = Some em)"
  then have "find_user (load_users f) em = None"
    by (simp add: find_user_None)
  with a show "login_page cfg (Send_OTP_Code em tr x) (f, s) = Inr ((f, s), Email_not_found)"
    by (simp add: send_otp_clicked_def truthy_def)
next
  fix u y
  assume "map_of (load_users f) u = Some (Legacy y)"
  then show "\<not> has_email (load_users f) em u"
    by (simp add: has_email_def)
next
  fix u
  assume "find_user (load_users f) em = Some u"
  then show "\<exists>d. map_of (load_users f) u = Some (Dict d) \<and> map_of d (lit ''email'') = Some em"
    by (rule find_user_Some)
next
  show "100000 \<le> randint 100000 999999 x"
    by (rule otp_draw(1))
  show "randint 100000 999999 x \<le> 999999"
    by (rule otp_draw(2))
  show "length (str_int (randint 100000 999999 x)) = 6"
    using otp_draw by (rule otp_shape(1))
  show "\<forall>c \<in> set (str_int (randint 100000 999999 x)). 48 \<le> c \<and> c \<le> 57"
    using otp_draw by (rule otp_shape(2))
  show "hd (str_int (randint 100000 999999 x)) \<noteq> 48"
    using otp_draw by (rule otp_shape(3))
  show "int (decimal_value (str_int (randint 100000 999999 x))) = randint 100000 999999 x"
    using otp_draw by (rule otp_shape(4))
  show "bij_betw (randint 100000 999999) {0..<900000} {100000..999999}"
    using randint_bij [of 100000 999999] by simp
  show "randint 100000 999999 (x + 900000) = randint 100000 999999 x"
    using randint_periodic [of 100000 999999 x] by simp
next
  fix u
  assume "\<not> authenticated s \<and> EMAIL_ENABLED cfg \<and> reset_stage s = 0 \<and>
        find_user (load_users f) em = Some u \<and> u \<noteq> [] \<and>
        tr em (lit ''Your Study Buddy Verification Code is: '' @ str_int (randint 100000 999999 x))
          = None"
  then show "login_page cfg (Send_OTP_Code em tr x) (f, s) =
            Inr ((f, s\<lparr>generated_otp := Some (str_int (randint 100000 999999 x)),
                        reset_email := Some em,
                        reset_username := Some u, reset_stage := 1\<rparr>), No_notice)"
    by (simp add: send_otp_clicked_def truthy_def send_otp_email_def)
next
  assume "\<not> authenticated s \<and> EMAIL_ENABLED cfg \<and> reset_stage s = 1 \<and> Some code \<noteq> generated_otp s"
  then show "login_page cfg (Verify_OTP code) (f, s) = Inr ((f, s), Invalid_OTP)"
    by (simp add: verify_otp_clicked_def)
next
  assume "\<not> authenticated s \<and> EMAIL_ENABLED cfg \<and> reset_stage s = 1 \<and> Some code = generated_otp s"
  then show "login_page cfg (Verify_OTP code) (f, s) = Inr ((f, s\<lparr>reset_stage := 2\<rparr>), No_notice)"
    by (simp add: verify_otp_clicked_def)
qed

lemma example_draw: "randint 100000 999999 23456 = 123456"
  by (simp add: randint_def randbelow_def)

lemma example_otp: "str_int (randint 100000 999999 23456) = lit ''123456''"
  by (simp add: example_draw str_int_def digits.simps lit_def)

lemma example_session_stage:
  "\<not> authenticated example_session" "reset_stage example_session = 0"
  "\<not> authenticated example_ticket_session" "reset_stage example_ticket_session = 1"
  "generated_otp example_ticket_session = Some (lit ''123456'')"
  "reset_username example_ticket_session = Some (lit ''ann'')"
  "EMAIL_ENABLED example_config"
  by (simp_all add: example_session_def example_ticket_session_def initial_session_def
      example_config_def)

lemma example_find_ann:
  "find_user (load_users (Holds example_users)) (lit ''ann@x.org'') = Some (lit ''ann'')"
  by (simp add: find_user_def load_users_def example_users_def keys_def has_email_def lit_def)

theorem reset_request_and_verify_witness:
  "login_page example_config (Send_OTP_Code (lit ''zed@x.org'') always_delivers 23456)
       (Holds example_users, example_session)
     = Inr ((Holds example_users, example_session), Email_not_found) \<and>
   find_user (load_users (Holds example_users)) (lit ''ann@x.org'') = Some (lit ''ann'') \<and>
   login_page example_config (Send_OTP_Code (lit ''ann@x.org'') always_delivers 23456)
       (Holds example_users, example_session)
     = Inr ((Holds example_users, example_ticket_session), No_notice) \<and>
   length (str_int (randint 100000 999999 23456)) = 6 \<and>
   hd (str_int (randint 100000 999999 23456)) \<noteq> 48 \<and>
   login_page example_config (Verify_OTP (lit ''000000''))
       (Holds example_users, example_ticket_session)
     = Inr ((Holds example_users, example_ticket_session), Invalid_OTP) \<and>
   login_page example_config (Verify_OTP (lit ''123456''))
       (Holds example_users, example_ticket_session)
     = Inr ((Holds example_users, example_ticket_session\<lparr>reset_stage := 2\<rparr>), No_notice)"
proof -
  let ?f = "Holds example_users"
  note st = example_session_stage
  have nomatch: "\<not> (\<exists>u d. map_of (load_users ?f) u = Some (Dict d) \<and>
                          map_of d (lit ''email'') = Some (lit ''zed@x.org''))"
    by (auto simp: load_users_def example_users_def lit_def split: if_splits)
  have a: "login_page example_config (Send_OTP_Code (lit ''zed@x.org'') always_delivers 23456)
             (?f, example_session) = Inr ((?f, example_session), Email_not_found)"
    using reset_request_and_verify [where s = example_session and cfg = example_config
        and f = ?f and em = "lit ''zed@x.org''" and tr = always_delivers and x = 23456]
      st nomatch by blast
  have shape: "length (str_int (randint 100000 999999 23456)) = 6 \<and>
               hd (str_int (randint 100000 999999 23456)) \<noteq> 48"
    using reset_request_and_verify [where x = 23456] by blast
  have sent: "always_delivers (lit ''ann@x.org'')
                (lit ''Your Study Buddy Verification Code is: ''
                 @ str_int (randint 100000 999999 23456)) = None"
    by (simp add: always_delivers_def)
  have ne: "lit ''ann'' \<noteq> []"
    by (simp add: lit_def)
  have "login_page example_config (Send_OTP_Code (lit ''ann@x.org'') always_delivers 23456)
          (?f, example_session)
        = Inr ((?f, example_session\<lparr>generated_otp := Some (str_int (randint 100000 999999 23456)),
                      reset_email := Some (lit ''ann@x.org''),
                      reset_username := Some (lit ''ann''), reset_stage := 1\<rparr>), No_notice)"
    using reset_request_and_verify [where s = example_session and cfg = example_config
        and f = ?f and em = "lit ''ann@x.org''" and tr = always_delivers and x = 23456]
      st example_find_ann sent ne by blast
  then have b: "login_page example_config (Send_OTP_Code (lit ''ann@x.org'') always_delivers 23456)
          (?f, example_session) = Inr ((?f, example_ticket_session), No_notice)"
    by (simp only: example_otp example_ticket_session_def)
  have wrong: "Some (lit ''000000'') \<noteq> generated_otp example_ticket_session"
    by (simp add: st lit_def)
  have right: "Some (lit ''123456'') = generated_otp example_ticket_session"
    by (simp add: st)
  have c: "login_page example_config (Verify_OTP (lit ''000000'')) (?f, example_ticket_session)
             = Inr ((?f, example_ticket_session), Invalid_OTP)"
    using reset_request_and_verify [where s = example_ticket_session and cfg = example_config
        and f = ?f and code = "lit ''000000''"] st wrong by blast
  have d: "login_page example_config (Verify_OTP (lit ''123456'')) (?f, example_ticket_session)
             = Inr ((?f, example_ticket_session\<lparr>reset_stage := 2\<rparr>), No_notice)"
    using reset_request_and_verify [where s = example_ticket_session and cfg = example_config
        and f = ?f and code = "lit ''123456''"] st right by blast
  from a example_find_ann b shape c d show ?thesis
    by blast
qed


subsection \<open>The ticket names a dict-shaped account\<close>

lemma ticket_names_dict_initial: "ticket_names_dict (f0, initial_session f0)"
  by (simp add: ticket_names_dict_def initial_session_def)

lemma ticket_names_dict_I:
  "reset_username s = Some u \<Longrightarrow> map_of (load_users f) u = Some (Dict d) \<Longrightarrow>
     ticket_names_dict (f, s)"
  by (simp add: ticket_names_dict_def)

lemma ticket_names_dict_D:
  assumes "ticket_names_dict (f, s)" "reset_stage s \<noteq> 0"
  shows "\<exists>u d. reset_username s = Some u \<and> map_of (load_users f) u = Some (Dict d)"
  using assms by (auto simp: ticket_names_dict_def split: option.splits user_data.splits)

lemma ticket_names_dict_stage0: "reset_stage s = 0 \<Longrightarrow> ticket_names_dict (f, s)"
  by (simp add: ticket_names_dict_def)

lemma ticket_names_dict_cong:
  assumes "ticket_names_dict (f, s)"
    and "reset_stage s' = 0 \<or> reset_stage s \<noteq> 0"
    and "reset_username s' = reset_username s"
    and "\<And>u d. map_of (load_users f) u = Some (Dict d) \<Longrightarrow>
                \<exists>d'. map_of (load_users f') u = Some (Dict d')"
  shows "ticket_names_dict (f', s')"
proof (cases "reset_stage s' = 0")
  case True
  then show ?thesis
    by (rule ticket_names_dict_stage0)
next
  case False
  with assms(2) have "reset_stage s \<noteq> 0"
    by simp
  with assms(1) obtain u d where "reset_username s = Some u" "map_of (load_users f) u = Some (Dict d)"
    using ticket_names_dict_D by blast
  with assms(3,4) show ?thesis
    by (auto intro: ticket_names_dict_I)
qed

lemma login_user_ticket:
  assumes "login_user f s u p = Inr (s', n)"
  shows "reset_stage s' = reset_stage s \<and> reset_username s' = reset_username s"
  using assms
  by (auto simp: login_user_def Let_def split: if_splits sum.splits)

lemma signup_user_ticket:
  assumes "signup_user f s u p e = (f', s', n)"
  shows "reset_stage s' = reset_stage s \<and> reset_username s' = reset_username s"
  using assms
  by (auto simp: signup_user_def Let_def split: if_splits)

lemma signup_user_keeps_accounts:
  assumes "signup_user f s u p e = (f', s', n)" "map_of (load_users f) v = Some a"
  shows "map_of (load_users f') v = Some a"
proof (cases "n = Account_created")
  case True
  with assms(1) have f': "f' = Holds (AList.update u (Dict [(lit ''password'', p), (lit ''email'', e)])
                                  (load_users f))"
    by (simp add: signup_created)
  from True assms(1) have "\<not> contains (load_users f) u"
    by (auto simp: signup_user_def Let_def split: if_splits)
  with assms(2) have "v \<noteq> u"
    by (auto simp: contains_def)
  with assms(2) show ?thesis
    by (simp add: f' load_users_def update_conv')
next
  case False
  with assms(1) have "f' = f"
    by (auto simp: signup_user_def Let_def split: if_splits)
  with assms(2) show ?thesis
    by simp
qed

lemma send_otp_clicked_ticket:
  assumes "send_otp_clicked cfg tr r f s em = (s', n)"
  shows "s' = s \<or>
         (reset_stage s' = 1 \<and>
          (\<exists>u d. reset_username s' = Some u \<and> map_of (load_users f) u = Some (Dict d)))"
proof (cases "find_user (load_users f) em")
  case None
  with assms show ?thesis
    by (simp add: send_otp_clicked_def truthy_def)
next
  case (Some u)
  then obtain d where "map_of (load_users f) u = Some (Dict d)"
    using find_user_Some by blast
  with Some assms show ?thesis
    by (auto simp: send_otp_clicked_def Let_def split: if_splits otp_result.splits)
qed

lemma update_password_clicked_stage:
  assumes "update_password_clicked f s pw = Inr (f', s', n)"
  shows "s' = s\<lparr>reset_stage := 0\<rparr>"
  using assms
  by (auto simp: update_password_clicked_def Let_def
      split: option.splits sum.splits user_data.splits)

lemma ticket_names_dict_step:
  assumes inv: "ticket_names_dict (f, s)" and step: "login_page cfg c (f, s) = Inr ((f', s'), n)"
  shows "ticket_names_dict (f', s')"
proof (cases c)
  case (Log_In u p)
  show ?thesis
  proof (cases "authenticated s")
    case True
    with step Log_In inv show ?thesis
      by simp
  next
    case False
    with step Log_In have "login_user f s u p = Inr (s', n)" and "f' = f"
      by (auto split: sum.splits)
    with inv show ?thesis
      by (auto dest!: login_user_ticket intro: ticket_names_dict_cong)
  qed
next
  case (Create_Account u e p)
  show ?thesis
  proof (cases "\<not> authenticated s \<and> u \<noteq> [] \<and> e \<noteq> [] \<and> p \<noteq> []")
    case True
    with step Create_Account have su: "signup_user f s u p e = (f', s', n)"
      by (auto split: prod.splits)
    from su have "reset_stage s' = reset_stage s \<and> reset_username s' = reset_username s"
      by (rule signup_user_ticket)
    moreover have "\<exists>d'. map_of (load_users f') v = Some (Dict d')"
      if "map_of (load_users f) v = Some (Dict d)" for v d
      using signup_user_keeps_accounts [OF su that] by blast
    ultimately show ?thesis
      using inv by (auto intro: ticket_names_dict_cong)
  next
    case False
    with step Create_Account inv show ?thesis
      by (auto split: if_splits)
  qed
next
  case (Send_OTP_Code em tr r)
  show ?thesis
  proof (cases "\<not> authenticated s \<and> EMAIL_ENABLED cfg \<and> reset_stage s = 0")
    case True
    with step Send_OTP_Code have so: "send_otp_clicked cfg tr r f s em = (s', n)" and "f' = f"
      by (auto split: prod.splits)
    from send_otp_clicked_ticket [OF so] inv \<open>f' = f\<close> show ?thesis
      by (auto intro: ticket_names_dict_I)
  next
    case False
    with step Send_OTP_Code inv show ?thesis
      by (auto split: if_splits)
  qed
next
  case (Verify_OTP code)
  with step have "f' = f" "reset_username s' = reset_username s" "reset_stage s' = 0 \<or> reset_stage s \<noteq> 0"
    by (auto simp: verify_otp_clicked_def split: if_splits)
  with inv show ?thesis
    by (auto intro: ticket_names_dict_cong)
next
  case Back
  with step have "f' = f" "reset_username s' = reset_username s" "reset_stage s' = 0 \<or> reset_stage s \<noteq> 0"
    by (auto simp: back_clicked_def split: if_splits)
  with inv show ?thesis
    by (auto intro: ticket_names_dict_cong)
next
  case (Update_Password pw)
  show ?thesis
  proof (cases "\<not> authenticated s \<and> EMAIL_ENABLED cfg \<and> reset_stage s = 2")
    case True
    with step Update_Password have "update_password_clicked f s pw = Inr (f', s', n)"
      by (auto split: sum.splits)
    then have "s' = s\<lparr>reset_stage := 0\<rparr>"
      by (rule update_password_clicked_stage)
    then have "reset_stage s' = 0"
      by simp
    then show ?thesis
      by (rule ticket_names_dict_stage0)
  next
    case False
    with step Update_Password inv show ?thesis
      by (auto split: if_splits)
  qed
next
  case Logout
  with step have "f' = f" "reset_username s' = reset_username s" "reset_stage s' = reset_stage s"
    by (auto split: if_splits)
  with inv show ?thesis
    by (auto intro: ticket_names_dict_cong)
qed

lemma ticket_names_dict_clicks:
  "ticket_names_dict w \<Longrightarrow> ticket_names_dict (clicks cfg cs w)"
proof (induction cs arbitrary: w)
  case Nil
  then show ?case
    by simp
next
  case (Cons c cs)
  obtain f s where w: "w = (f, s)"
    by (cases w)
  show ?case
  proof (cases "login_page cfg c w")
    case (Inl e)
    with Cons show ?thesis
      by simp
  next
    case (Inr r)
    obtain f' s' n where r: "r = ((f', s'), n)"
      by (cases r) auto
    from Cons.prems Inr have "ticket_names_dict (f', s')"
      unfolding w r by (rule ticket_names_dict_step)
    then have "ticket_names_dict (clicks cfg cs (f', s'))"
      by (rule Cons.IH)
    with Inr r show ?thesis
      by simp
  qed
qed

lemma update_password_clicked_dict:
  assumes "reset_username s = Some u" "map_of (load_users f) u = Some (Dict d)"
  shows "update_password_clicked f s pw =
           Inr (Holds (AList.update u (Dict (AList.update (lit ''password'') pw d)) (load_users f)),
                s\<lparr>reset_stage := 0\<rparr>, Password_Updated)"
  using assms
  by (simp add: update_password_clicked_def getitem_def save_users_def)

lemma example_send:
  "login_page example_config (Send_OTP_Code (lit ''ann@x.org'') always_delivers 23456)
       (Holds example_users, example_session)
     = Inr ((Holds example_users, example_ticket_session), No_notice)"
  by (simp add: example_session_stage send_otp_clicked_def example_find_ann truthy_def
      send_otp_email_def always_delivers_def example_otp example_ticket_session_def)
     (simp add: lit_def)

lemma example_clicks_stage2:
  "clicks example_config
       [Send_OTP_Code (lit ''ann@x.org'') always_delivers 23456, Verify_OTP (lit ''123456'')]
       (Holds example_users, example_session)
     = (Holds example_users, example_ticket_session\<lparr>reset_stage := 2\<rparr>)"
  by (simp only: clicks.simps example_send sum.case prod.case)
     (simp add: example_session_stage verify_otp_clicked_def)

lemma example_clicks_back:
  "clicks example_config
       [Send_OTP_Code (lit ''ann@x.org'') always_delivers 23456, Back]
       (Holds example_users, example_session)
     = (Holds example_users, example_ticket_session\<lparr>reset_stage := 0\<rparr>)"
  by (simp only: clicks.simps example_send sum.case prod.case)
     (simp add: example_session_stage back_clicked_def)

lemma example_ann:
  "map_of (load_users (Holds example_users)) (lit ''ann'')
     = Some (Dict [(lit ''password'', lit ''pw1''), (lit ''email'', lit ''ann@x.org'')])"
  by (simp add: load_users_def example_users_def)

text \<open>
  C5. At stage 2, when the ticket's username names a dict-shaped account of the accounts
  file (which it does in every stage-2 state the login page reaches from a fresh session),
  "Update Password" writes the whole mapping back with that account's "password" field set
  to the new password: the keys and their order are the same, every other account is what
  it was, and every other field of the account (its email among them) is what it was. The
  stage returns to 0.
\<close>

theorem set_new_password_frame:
  "(\<not> authenticated s \<and> EMAIL_ENABLED cfg \<and> reset_stage s = 2 \<and>
      reset_username s = Some u \<and> map_of (load_users f) u = Some (Dict d)
    \<longrightarrow> (\<exists>us' d'.
           login_page cfg (Update_Password pw) (f, s)
             = Inr ((Holds us', s\<lparr>reset_stage := 0\<rparr>), Password_Updated) \<and>
           keys us' = keys (load_users f) \<and>
           (\<forall>v. v \<noteq> u \<longrightarrow> map_of us' v = map_of (load_users f) v) \<and>
           map_of us' u = Some (Dict d') \<and>
           map_of d' (lit ''password'') = Some pw \<and>
           (\<forall>k. k \<noteq> lit ''password'' \<longrightarrow> map_of d' k = map_of d k))) \<and>
   (clicks cfg cs (f0, initial_session f0) = (f, s) \<and> reset_stage s = 2
    \<longrightarrow> (\<exists>u d. reset_username s = Some u \<and> map_of (load_users f) u = Some (Dict d)))"
proof (intro conjI impI)
  assume a: "\<not> authenticated s \<and> EMAIL_ENABLED cfg \<and> reset_stage s = 2 \<and>
      reset_username s = Some u \<and> map_of (load_users f) u = Some (Dict d)"
  let ?d' = "AList.update (lit ''password'') pw d"
  let ?us' = "AList.update u (Dict ?d') (load_users f)"
  from a have "update_password_clicked f s pw
                 = Inr (Holds ?us', s\<lparr>reset_stage := 0\<rparr>, Password_Updated)"
    by (simp add: update_password_clicked_dict)
  with a have step: "login_page cfg (Update_Password pw) (f, s)
                       = Inr ((Holds ?us', s\<lparr>reset_stage := 0\<rparr>), Password_Updated)"
    by simp
  from a have "u \<in> set (map fst (load_users f))"
    by (auto dest: map_of_SomeD intro: rev_image_eqI)
  then have k: "keys ?us' = keys (load_users f)"
    by (simp add: keys_def update_keys)
  have others: "\<forall>v. v \<noteq> u \<longrightarrow> map_of ?us' v = map_of (load_users f) v"
    by (simp add: update_conv')
  have self: "map_of ?us' u = Some (Dict ?d')"
    by (simp add: update_conv')
  have pw: "map_of ?d' (lit ''password'') = Some pw"
    by (simp add: update_conv')
  have fields: "\<forall>k. k \<noteq> lit ''password'' \<longrightarrow> map_of ?d' k = map_of d k"
    by (simp add: update_conv')
  from step k others self pw fields
  show "\<exists>us' d'.
           login_page cfg (Update_Password pw) (f, s)
             = Inr ((Holds us', s\<lparr>reset_stage := 0\<rparr>), Password_Updated) \<and>
           keys us' = keys (load_users f) \<and>
           (\<forall>v. v \<noteq> u \<longrightarrow> map_of us' v = map_of (load_users f) v) \<and>
           map_of us' u = Some (Dict d') \<and>
           map_of d' (lit ''password'') = Some pw \<and>
           (\<forall>k. k \<noteq> lit ''password'' \<longrightarrow> map_of d' k = map_of d k)"
    by blast
next
  assume a: "clicks cfg cs (f0, initial_session f0) = (f, s) \<and> reset_stage s = 2"
  have "ticket_names_dict (clicks cfg cs (f0, initial_session f0))"
    by (rule ticket_names_dict_clicks) (rule ticket_names_dict_initial)
  with a have "ticket_names_dict (f, s)" and "reset_stage s \<noteq> 0"
    by simp_all
  then show "\<exists>u d. reset_username s = Some u \<and> map_of (load_users f) u = Some (Dict d)"
    by (rule ticket_names_dict_D)
qed

lemma example_stage2_session:
  "\<not> authenticated (example_ticket_session\<lparr>reset_stage := 2\<rparr>)"
  "reset_stage (example_ticket_session\<lparr>reset_stage := 2\<rparr>) = 2"
  "reset_username (example_ticket_session\<lparr>reset_stage := 2\<rparr>) = Some (lit ''ann'')"
  by (simp_all add: example_session_stage)

theorem set_new_password_frame_witness:
  "\<not> authenticated (example_ticket_session\<lparr>reset_stage := 2\<rparr>) \<and>
   EMAIL_ENABLED example_config \<and>
   reset_stage (example_ticket_session\<lparr>reset_stage := 2\<rparr>) = 2 \<and>
   reset_username (example_ticket_session\<lparr>reset_stage := 2\<rparr>) = Some (lit ''ann'') \<and>
   map_of (load_users (Holds example_users)) (lit ''ann'')
     = Some (Dict [(lit ''password'', lit ''pw1''), (lit ''email'', lit ''ann@x.org'')]) \<and>
   (\<exists>us' d'.
      login_page example_config (Update_Password (lit ''pw2''))
          (Holds example_users, example_ticket_session\<lparr>reset_stage := 2\<rparr>)
        = Inr ((Holds us', example_ticket_session\<lparr>reset_stage := 2, reset_stage := 0\<rparr>),
               Password_Updated) \<and>
      keys us' = keys (load_users (Holds example_users)) \<and>
      (\<forall>v. v \<noteq> lit ''ann'' \<longrightarrow> map_of us' v = map_of (load_users (Holds example_users)) v) \<and>
      map_of us' (lit ''ann'') = Some (Dict d') \<and>
      map_of d' (lit ''password'') = Some (lit ''pw2'') \<and>
      (\<forall>k. k \<noteq> lit ''password'' \<longrightarrow>
           map_of d' k = map_of [(lit ''password'', lit ''pw1''), (lit ''email'', lit ''ann@x.org'')] k)) \<and>
   clicks example_config
       [Send_OTP_Code (lit ''ann@x.org'') always_delivers 23456, Verify_OTP (lit ''123456'')]
       (Holds example_users, initial_session (Holds example_users))
     = (Holds example_users, example_ticket_session\<lparr>reset_stage := 2\<rparr>) \<and>
   (\<exists>u d. reset_username (example_ticket_session\<lparr>reset_stage := 2\<rparr>) = Some u \<and>
          map_of (load_users (Holds example_users)) u = Some (Dict d))"
proof -
  let ?s2 = "example_ticket_session\<lparr>reset_stage := 2\<rparr>"
  let ?f = "Holds example_users"
  let ?cs = "[Send_OTP_Code (lit ''ann@x.org'') always_delivers 23456, Verify_OTP (lit ''123456'')]"
  note st = example_stage2_session example_session_stage(7) example_ann
  have run: "clicks example_config ?cs (?f, initial_session ?f) = (?f, ?s2)"
    using example_clicks_stage2 by (simp add: example_session_def)
  note inst = set_new_password_frame [where s = ?s2 and cfg = example_config and f = ?f
      and u = "lit ''ann''" and pw = "lit ''pw2''"
      and d = "[(lit ''password'', lit ''pw1''), (lit ''email'', lit ''ann@x.org'')]"
      and cs = ?cs and ?f0.0 = ?f]
  from inst st run show ?thesis
    by blast
qed

text \<open>
  C10. In every state that a sequence of clicks (logins, logouts, signups and reset
  steps, in any order) reaches from a fresh session and in which the reset flow is
  at stage 2, with the accounts file changed by these clicks only, the ticket's username
  is a key of the accounts file and names a dict-shaped account. So "Update Password"
  there raises nothing, in particular not the TypeError of an item assignment into a
  bare string, and returns normally.
\<close>

theorem stage2_ticket_names_dict_account:
  "clicks cfg cs (f0, initial_session f0) = (f, s) \<and> reset_stage s = 2
   \<longrightarrow> (\<exists>u d. reset_username s = Some u \<and>
              getitem (load_users f) u = Inr (Dict d) \<and>
              (\<forall>x. getitem (load_users f) u \<noteq> Inr (Legacy x)) \<and>
              update_password_clicked f s pw \<noteq> Inl TypeError \<and>
              (\<exists>f' s' n. update_password_clicked f s pw = Inr (f', s', n)))"
proof
  assume a: "clicks cfg cs (f0, initial_session f0) = (f, s) \<and> reset_stage s = 2"
  have "ticket_names_dict (clicks cfg cs (f0, initial_session f0))"
    by (rule ticket_names_dict_clicks) (rule ticket_names_dict_initial)
  with a have "ticket_names_dict (f, s)" and "reset_stage s \<noteq> 0"
    by simp_all
  then obtain u d where u: "reset_username s = Some u" "map_of (load_users f) u = Some (Dict d)"
    using ticket_names_dict_D by blast
  then have g: "getitem (load_users f) u = Inr (Dict d)"
    by (simp add: getitem_def)
  from u have "update_password_clicked f s pw =
           Inr (Holds (AList.update u (Dict (AList.update (lit ''password'') pw d)) (load_users f)),
                s\<lparr>reset_stage := 0\<rparr>, Password_Updated)"
    by (rule update_password_clicked_dict)
  with u(1) g show "\<exists>u d. reset_username s = Some u \<and>
              getitem (load_users f) u = Inr (Dict d) \<and>
              (\<forall>x. getitem (load_users f) u \<noteq> Inr (Legacy x)) \<and>
              update_password_clicked f s pw \<noteq> Inl TypeError \<and>
              (\<exists>f' s' n. update_password_clicked f s pw = Inr (f', s', n))"
    by simp
qed

theorem stage2_ticket_names_dict_account_witness:
  "clicks example_config
       [Send_OTP_Code (lit ''ann@x.org'') always_delivers 23456, Verify_OTP (lit ''123456'')]
       (Holds example_users, initial_session (Holds example_users))
     = (Holds example_users, example_ticket_session\<lparr>reset_stage := 2\<rparr>) \<and>
   reset_stage (example_ticket_session\<lparr>reset_stage := 2\<rparr>) = 2 \<and>
   (\<exists>u d. reset_username (example_ticket_session\<lparr>reset_stage := 2\<rparr>) = Some u \<and>
      getitem (load_users (Holds example_users)) u = Inr (Dict d) \<and>
      (\<forall>x. getitem (load_users (Holds example_users)) u \<noteq> Inr (Legacy x)) \<and>
      update_password_clicked (Holds example_users) (example_ticket_session\<lparr>reset_stage := 2\<rparr>)
          (lit ''pw2'') \<noteq> Inl TypeError \<and>
      (\<exists>f' s' n. update_password_clicked (Holds example_users)
                    (example_ticket_session\<lparr>reset_stage := 2\<rparr>) (lit ''pw2'') = Inr (f', s', n)))"
proof -
  let ?s2 = "example_ticket_session\<lparr>reset_stage := 2\<rparr>"
  let ?f = "Holds example_users"
  let ?cs = "[Send_OTP_Code (lit ''ann@x.org'') always_delivers 23456, Verify_OTP (lit ''123456'')]"
  have run: "clicks example_config ?cs (?f, initial_session ?f) = (?f, ?s2)"
    using example_clicks_stage2 by (simp add: example_session_def)
  have st: "reset_stage ?s2 = 2"
    by simp
  from stage2_ticket_names_dict_account [where cfg = example_config and cs = ?cs and ?f0.0 = ?f
      and f = ?f and s = ?s2 and pw = "lit ''pw2''"] run st
  show ?thesis
    by blast
qed

subsection \<open>What returning to stage 0 leaves behind\<close>

lemma clicks_append: "clicks cfg (xs @ ys) w = clicks cfg ys (clicks cfg xs w)"
  by (induction xs arbitrary: w) simp_all

lemma example_update:
  "login_page example_config (Update_Password (lit ''pw2''))
       (Holds example_users, example_ticket_session\<lparr>reset_stage := 2\<rparr>)
     = Inr ((Holds (AList.update (lit ''ann'')
                      (Dict (AList.update (lit ''password'') (lit ''pw2'')
                               [(lit ''password'', lit ''pw1''), (lit ''email'', lit ''ann@x.org'')]))
                      (load_users (Holds example_users))),
             example_ticket_session\<lparr>reset_stage := 0\<rparr>), Password_Updated)"
proof -
  have "update_password_clicked (Holds example_users) (example_ticket_session\<lparr>reset_stage := 2\<rparr>)
          (lit ''pw2'')
        = Inr (Holds (AList.update (lit ''ann'')
                      (Dict (AList.update (lit ''password'') (lit ''pw2'')
                               [(lit ''password'', lit ''pw1''), (lit ''email'', lit ''ann@x.org'')]))
                      (load_users (Holds example_users))),
               example_ticket_session\<lparr>reset_stage := 2, reset_stage := 0\<rparr>, Password_Updated)"
    using example_stage2_session(3) example_ann by (rule update_password_clicked_dict)
  then show ?thesis
    by (simp add: example_stage2_session example_session_stage)
qed

lemma example_resend:
  "login_page example_config (Send_OTP_Code (lit ''ann@x.org'') always_delivers 554321)
       (Holds example_users, example_ticket_session\<lparr>reset_stage := 0\<rparr>)
     = Inr ((Holds example_users,
             example_ticket_session\<lparr>reset_stage := 0,
                generated_otp := Some (str_int (randint 100000 999999 554321)), reset_email := Some (lit ''ann@x.org''),
                reset_username := Some (lit ''ann''), reset_stage := 1\<rparr>), No_notice)"
  by (simp add: example_session_stage send_otp_clicked_def example_find_ann truthy_def
      send_otp_email_def always_delivers_def)
     (simp add: lit_def)

text \<open>
  C6 (as amended). "Back" at stage 1 and a completed "Update Password" at stage 2 return
  the flow to stage 0 and change nothing else in the session state: the code, the email
  and the username of the attempt stay in \<open>generated_otp\<close>, \<open>reset_email\<close> and
  \<open>reset_username\<close>. They are replaced, all three together, by the next "Send OTP Code"
  that succeeds.
\<close>

theorem ticket_kept_on_return_to_stage_0:
  "(\<not> authenticated s \<and> EMAIL_ENABLED cfg \<and> reset_stage s = 1
      \<longrightarrow> login_page cfg Back (f, s) = Inr ((f, s\<lparr>reset_stage := 0\<rparr>), No_notice)) \<and>
   (\<forall>f' s' n. \<not> authenticated s \<and> EMAIL_ENABLED cfg \<and> reset_stage s = 2 \<and>
        login_page cfg (Update_Password pw) (f, s) = Inr ((f', s'), n)
      \<longrightarrow> s' = s\<lparr>reset_stage := 0\<rparr>) \<and>
   generated_otp (s\<lparr>reset_stage := 0\<rparr>) = generated_otp s \<and>
   reset_email (s\<lparr>reset_stage := 0\<rparr>) = reset_email s \<and>
   reset_username (s\<lparr>reset_stage := 0\<rparr>) = reset_username s \<and>
   (\<forall>f' s'. \<not> authenticated s \<and> EMAIL_ENABLED cfg \<and> reset_stage s = 0 \<and>
        login_page cfg (Send_OTP_Code em tr x) (f, s) = Inr ((f', s'), No_notice)
      \<longrightarrow> reset_stage s' = 1 \<and>
          generated_otp s' = Some (str_int (randint 100000 999999 x)) \<and>
          reset_email s' = Some em \<and> reset_username s' = find_user (load_users f) em)"
proof (intro conjI allI impI)
  assume "\<not> authenticated s \<and> EMAIL_ENABLED cfg \<and> reset_stage s = 1"
  then show "login_page cfg Back (f, s) = Inr ((f, s\<lparr>reset_stage := 0\<rparr>), No_notice)"
    by (simp add: back_clicked_def)
next
  fix f' s' n
  assume "\<not> authenticated s \<and> EMAIL_ENABLED cfg \<and> reset_stage s = 2 \<and>
        login_page cfg (Update_Password pw) (f, s) = Inr ((f', s'), n)"
  then have "update_password_clicked f s pw = Inr (f', s', n)"
    by (auto split: sum.splits)
  then show "s' = s\<lparr>reset_stage := 0\<rparr>"
    by (rule update_password_clicked_stage)
next
  fix f' s'
  assume a: "\<not> authenticated s \<and> EMAIL_ENABLED cfg \<and> reset_stage s = 0 \<and>
        login_page cfg (Send_OTP_Code em tr x) (f, s) = Inr ((f', s'), No_notice)"
  then have "send_otp_clicked cfg tr x f s em = (s', No_notice)"
    by (auto split: prod.splits)
  then have s': "s' = s\<lparr>generated_otp := Some (str_int (randint 100000 999999 x)),
                       reset_email := Some em,
                       reset_username := find_user (load_users f) em, reset_stage := 1\<rparr>"
    by (auto simp: send_otp_clicked_def Let_def split: if_splits otp_result.splits)
  show "reset_stage s' = 1" "generated_otp s' = Some (str_int (randint 100000 999999 x))"
    "reset_email s' = Some em"
    "reset_username s' = find_user (load_users f) em"
    by (simp_all add: s')
qed simp_all

theorem ticket_kept_on_return_to_stage_0_witness:
  "login_page example_config Back (Holds example_users, example_ticket_session)
     = Inr ((Holds example_users, example_ticket_session\<lparr>reset_stage := 0\<rparr>), No_notice) \<and>
   generated_otp (example_ticket_session\<lparr>reset_stage := 0\<rparr>) = Some (lit ''123456'') \<and>
   login_page example_config (Update_Password (lit ''pw2''))
       (Holds example_users, example_ticket_session\<lparr>reset_stage := 2\<rparr>)
     = Inr ((Holds (AList.update (lit ''ann'')
                      (Dict (AList.update (lit ''password'') (lit ''pw2'')
                               [(lit ''password'', lit ''pw1''), (lit ''email'', lit ''ann@x.org'')]))
                      (load_users (Holds example_users))),
             example_ticket_session\<lparr>reset_stage := 0\<rparr>), Password_Updated) \<and>
   example_ticket_session\<lparr>reset_stage := 0\<rparr>
     = example_ticket_session\<lparr>reset_stage := 2, reset_stage := 0\<rparr> \<and>
   login_page example_config (Send_OTP_Code (lit ''ann@x.org'') always_delivers 554321)
       (Holds example_users, example_ticket_session\<lparr>reset_stage := 0\<rparr>)
     = Inr ((Holds example_users,
             example_ticket_session\<lparr>reset_stage := 0,
                generated_otp := Some (str_int (randint 100000 999999 554321)), reset_email := Some (lit ''ann@x.org''),
                reset_username := Some (lit ''ann''), reset_stage := 1\<rparr>), No_notice) \<and>
   generated_otp (example_ticket_session\<lparr>reset_stage := 0,
                generated_otp := Some (str_int (randint 100000 999999 554321)), reset_email := Some (lit ''ann@x.org''),
                reset_username := Some (lit ''ann''), reset_stage := 1\<rparr>)
     = Some (str_int (randint 100000 999999 554321))"
proof -
  let ?f = "Holds example_users"
  let ?s1 = example_ticket_session
  let ?s0 = "example_ticket_session\<lparr>reset_stage := 0\<rparr>"
  let ?s2 = "example_ticket_session\<lparr>reset_stage := 2\<rparr>"
  note st = example_session_stage example_stage2_session
  have s0: "\<not> authenticated ?s0" "reset_stage ?s0 = 0"
    by (simp_all add: st)
  have a: "login_page example_config Back (?f, ?s1) = Inr ((?f, ?s0), No_notice)"
    using ticket_kept_on_return_to_stage_0 [where s = ?s1 and cfg = example_config and f = ?f] st
    by blast
  have b: "generated_otp ?s0 = Some (lit ''123456'')"
    using ticket_kept_on_return_to_stage_0 [where s = ?s1] st by simp
  have c: "?s0 = ?s2\<lparr>reset_stage := 0\<rparr>"
    using ticket_kept_on_return_to_stage_0 [where s = ?s2 and cfg = example_config and f = ?f
        and pw = "lit ''pw2''"] st example_update by blast
  have d: "generated_otp (?s0\<lparr>generated_otp := Some (str_int (randint 100000 999999 554321)),
                reset_email := Some (lit ''ann@x.org''),
                reset_username := Some (lit ''ann''), reset_stage := 1\<rparr>) = Some (str_int (randint 100000 999999 554321))"
    using ticket_kept_on_return_to_stage_0 [where s = ?s0 and cfg = example_config and f = ?f
        and em = "lit ''ann@x.org''" and tr = always_delivers and x = 554321] st s0 example_resend
    by blast
  from a b example_update c example_resend d show ?thesis
    by blast
qed

text \<open>
  The claim as written fails on both paths. After a successful "Send OTP Code" followed
  by "Back", and likewise after the full flow through "Update Password", the flow is at
  stage 0 and the session state still holds the code, the email and the username of that
  attempt.
\<close>

theorem ticket_retained_counterexample:
  "clicks example_config
       [Send_OTP_Code (lit ''ann@x.org'') always_delivers 23456, Back]
       (Holds example_users, initial_session (Holds example_users))
     = (Holds example_users, example_ticket_session\<lparr>reset_stage := 0\<rparr>) \<and>
   snd (clicks example_config
       [Send_OTP_Code (lit ''ann@x.org'') always_delivers 23456, Verify_OTP (lit ''123456''),
        Update_Password (lit ''pw2'')]
       (Holds example_users, initial_session (Holds example_users)))
     = example_ticket_session\<lparr>reset_stage := 0\<rparr> \<and>
   reset_stage (example_ticket_session\<lparr>reset_stage := 0\<rparr>) = 0 \<and>
   generated_otp (example_ticket_session\<lparr>reset_stage := 0\<rparr>) = Some (lit ''123456'') \<and>
   reset_email (example_ticket_session\<lparr>reset_stage := 0\<rparr>) = Some (lit ''ann@x.org'') \<and>
   reset_username (example_ticket_session\<lparr>reset_stage := 0\<rparr>) = Some (lit ''ann'')"
proof -
  let ?f = "Holds example_users"
  have init: "initial_session ?f = example_session"
    by (simp add: example_session_def)
  have bk: "clicks example_config
       [Send_OTP_Code (lit ''ann@x.org'') always_delivers 23456, Back] (?f, initial_session ?f)
     = (?f, example_ticket_session\<lparr>reset_stage := 0\<rparr>)"
    unfolding init by (rule example_clicks_back)
  have "clicks example_config
       ([Send_OTP_Code (lit ''ann@x.org'') always_delivers 23456, Verify_OTP (lit ''123456'')]
        @ [Update_Password (lit ''pw2'')]) (?f, example_session)
     = clicks example_config [Update_Password (lit ''pw2'')]
         (?f, example_ticket_session\<lparr>reset_stage := 2\<rparr>)"
    by (simp only: clicks_append example_clicks_stage2)
  also have "snd \<dots> = example_ticket_session\<lparr>reset_stage := 0\<rparr>"
    by (simp only: clicks.simps example_update sum.case prod.case snd_conv)
  finally have fin: "snd (clicks example_config
       [Send_OTP_Code (lit ''ann@x.org'') always_delivers 23456, Verify_OTP (lit ''123456''),
        Update_Password (lit ''pw2'')] (?f, initial_session ?f))
     = example_ticket_session\<lparr>reset_stage := 0\<rparr>"
    unfolding init by simp
  have fields: "reset_stage (example_ticket_session\<lparr>reset_stage := 0\<rparr>) = 0"
    "generated_otp (example_ticket_session\<lparr>reset_stage := 0\<rparr>) = Some (lit ''123456'')"
    "reset_email (example_ticket_session\<lparr>reset_stage := 0\<rparr>) = Some (lit ''ann@x.org'')"
    "reset_username (example_ticket_session\<lparr>reset_stage := 0\<rparr>) = Some (lit ''ann'')"
    by (simp_all add: example_ticket_session_def)
  from bk fin fields show ?thesis
    by blast
qed

section \<open>Conversation client\<close>

text \<open>
  C1. For every provider behaviour, API key, prompt, context text and list of prior
  messages, \<^verbatim>\<open>get_gemini_response\<close> returns a string and raises nothing. What it sends
  is \<^verbatim>\<open>"Context: {context_text}\n\nQuestion: {prompt}"\<close> when the context text is not
  empty and the prompt itself when it is empty; its result is the provider's text, or the
  fixed fallback string whenever the provider raises.
\<close>

theorem get_gemini_response_total:
  "(\<exists>t. get_gemini_response send k p c h = Inr t) \<and>
   (c \<noteq> [] \<longrightarrow>
      get_gemini_response send k p c h =
        Inr (case send k (lit ''gemini-flash-latest'') (gemini_history h)
                    (lit ''Context: '' @ c @ [10, 10] @ lit ''Question: '' @ p) of
               Inr t \<Rightarrow> t
             | Inl e \<Rightarrow> fallback)) \<and>
   (c = [] \<longrightarrow>
      get_gemini_response send k p c h =
        Inr (case send k (lit ''gemini-flash-latest'') (gemini_history h) p of
               Inr t \<Rightarrow> t
             | Inl e \<Rightarrow> fallback))"
  by (cases "c = []") (auto simp: get_gemini_response_def split: sum.splits)

theorem get_gemini_response_total_witness:
  "lit ''notes'' \<noteq> [] \<and>
   get_gemini_response echo_provider (lit ''key'') (lit ''Why?'') (lit ''notes'') []
     = Inr (lit ''Context: '' @ lit ''notes'' @ [10, 10] @ lit ''Question: '' @ lit ''Why?'') \<and>
   get_gemini_response failing_provider (lit ''key'') (lit ''Why?'') (lit ''notes'') []
     = Inr fallback \<and>
   get_gemini_response echo_provider (lit ''key'') (lit ''Why?'') [] [] = Inr (lit ''Why?'') \<and>
   get_gemini_response failing_provider (lit ''key'') (lit ''Why?'') [] [] = Inr fallback"
proof -
  have ne: "lit ''notes'' \<noteq> []"
    by (simp add: lit_def)
  have a: "get_gemini_response echo_provider (lit ''key'') (lit ''Why?'') (lit ''notes'') []
     = Inr (lit ''Context: '' @ lit ''notes'' @ [10, 10] @ lit ''Question: '' @ lit ''Why?'')"
    using get_gemini_response_total [where send = echo_provider and k = "lit ''key''"
        and p = "lit ''Why?''" and c = "lit ''notes''" and h = "[]"] ne
    by (simp add: echo_provider_def)
  have b: "get_gemini_response failing_provider (lit ''key'') (lit ''Why?'') (lit ''notes'') []
     = Inr fallback"
    using get_gemini_response_total [where send = failing_provider and k = "lit ''key''"
        and p = "lit ''Why?''" and c = "lit ''notes''" and h = "[]"] ne
    by (simp add: failing_provider_def)
  have c: "get_gemini_response echo_provider (lit ''key'') (lit ''Why?'') [] [] = Inr (lit ''Why?'')"
    using get_gemini_response_total [where send = echo_provider and k = "lit ''key''"
        and p = "lit ''Why?''" and c = "[]" and h = "[]"]
    by (simp add: echo_provider_def)
  have d: "get_gemini_response failing_provider (lit ''key'') (lit ''Why?'') [] [] = Inr fallback"
    using get_gemini_response_total [where send = failing_provider and k = "lit ''key''"
        and p = "lit ''Why?''" and c = "[]" and h = "[]"]
    by (simp add: failing_provider_def)
  from ne a b c d show ?thesis
    by blast
qed

section \<open>Chat turn\<close>

lemma get_gemini_response_Inr:
  "\<exists>t. get_gemini_response send k p c h = Inr t"
  by (simp add: get_gemini_response_def split: sum.splits)

text \<open>
  C8. On a brand-new chat (no messages yet, the session name still "New Chat") one
  submitted, non-empty prompt leaves exactly two messages: the user message with the
  prompt as content, then the assistant message with the reply. The reply is what
  \<^verbatim>\<open>get_gemini_response\<close> returns for the prompt, the extracted context text and the
  history without the message just appended, which is the empty history here. The session
  name becomes \<^verbatim>\<open>"Chat: " + prompt[:20] + "..."\<close>, and both messages are saved in the history
  file under that name.
\<close>

theorem ask_on_new_chat:
  "messages cs = [] \<and> current_session_name cs = lit ''New Chat'' \<and> prompt \<noteq> []
   \<longrightarrow> (\<exists>response.
          get_gemini_response send (GOOGLE_API_KEY cfg) prompt (raw_text cs) [] = Inr response \<and>
          chat_input send cfg (Some prompt) (hf, cs) =
            ((save_history (lit ''Chat: '' @ take 20 prompt @ lit ''...'')
                [\<lparr>role = lit ''user'', content = prompt\<rparr>,
                 \<lparr>role = lit ''assistant'', content = response\<rparr>] hf,
              cs\<lparr>messages := [\<lparr>role = lit ''user'', content = prompt\<rparr>,
                               \<lparr>role = lit ''assistant'', content = response\<rparr>],
                  current_session_name := lit ''Chat: '' @ take 20 prompt @ lit ''...''\<rparr>), None) \<and>
          length (messages (snd (fst (chat_input send cfg (Some prompt) (hf, cs))))) = 2 \<and>
          map_of (load_history (fst (fst (chat_input send cfg (Some prompt) (hf, cs)))))
              (lit ''Chat: '' @ take 20 prompt @ lit ''...'')
            = Some [\<lparr>role = lit ''user'', content = prompt\<rparr>,
                    \<lparr>role = lit ''assistant'', content = response\<rparr>])"
proof
  assume a: "messages cs = [] \<and> current_session_name cs = lit ''New Chat'' \<and> prompt \<noteq> []"
  obtain response
    where r: "get_gemini_response send (GOOGLE_API_KEY cfg) prompt (raw_text cs) [] = Inr response"
    using get_gemini_response_Inr by blast
  let ?nm = "lit ''Chat: '' @ take 20 prompt @ lit ''...''"
  let ?msgs = "[\<lparr>role = lit ''user'', content = prompt\<rparr>,
                \<lparr>role = lit ''assistant'', content = response\<rparr>]"
  from a r have step: "chat_input send cfg (Some prompt) (hf, cs) =
      ((save_history ?nm ?msgs hf, cs\<lparr>messages := ?msgs, current_session_name := ?nm\<rparr>), None)"
    by (simp add: chat_input_def ask_def Let_def)
  have saved: "map_of (load_history (save_history ?nm ?msgs hf)) ?nm = Some ?msgs"
    by (simp add: save_history_def load_history_def update_conv')
  from r step saved show "\<exists>response.
          get_gemini_response send (GOOGLE_API_KEY cfg) prompt (raw_text cs) [] = Inr response \<and>
          chat_input send cfg (Some prompt) (hf, cs) =
            ((save_history ?nm
                [\<lparr>role = lit ''user'', content = prompt\<rparr>,
                 \<lparr>role = lit ''assistant'', content = response\<rparr>] hf,
              cs\<lparr>messages := [\<lparr>role = lit ''user'', content = prompt\<rparr>,
                               \<lparr>role = lit ''assistant'', content = response\<rparr>],
                  current_session_name := ?nm\<rparr>), None) \<and>
          length (messages (snd (fst (chat_input send cfg (Some prompt) (hf, cs))))) = 2 \<and>
          map_of (load_history (fst (fst (chat_input send cfg (Some prompt) (hf, cs))))) ?nm
            = Some [\<lparr>role = lit ''user'', content = prompt\<rparr>,
                    \<lparr>role = lit ''assistant'', content = response\<rparr>]"
    by simp
qed

theorem ask_on_new_chat_witness:
  "messages initial_chat = [] \<and>
   current_session_name initial_chat = lit ''New Chat'' \<and>
   lit ''What is gravity?'' \<noteq> [] \<and>
   chat_input echo_provider example_config (Some (lit ''What is gravity?'')) (Missing, initial_chat)
     = ((Holds [(lit ''Chat: What is gravity?...'',
                 [\<lparr>role = lit ''user'', content = lit ''What is gravity?''\<rparr>,
                  \<lparr>role = lit ''assistant'', content = lit ''What is gravity?''\<rparr>])],
         initial_chat\<lparr>messages := [\<lparr>role = lit ''user'', content = lit ''What is gravity?''\<rparr>,
                                   \<lparr>role = lit ''assistant'', content = lit ''What is gravity?''\<rparr>],
                      current_session_name := lit ''Chat: What is gravity?...''\<rparr>), None)"
proof -
  let ?p = "lit ''What is gravity?''"
  have h: "messages initial_chat = []" "current_session_name initial_chat = lit ''New Chat''"
    "?p \<noteq> []"
    by (simp_all add: initial_chat_def lit_def)
  have g: "get_gemini_response echo_provider (GOOGLE_API_KEY example_config) ?p
             (raw_text initial_chat) [] = Inr ?p"
    by (simp add: get_gemini_response_def echo_provider_def initial_chat_def)
  have nm: "lit ''Chat: '' @ take 20 ?p @ lit ''...'' = lit ''Chat: What is gravity?...''"
    by (simp add: lit_def)
  from ask_on_new_chat [where cs = initial_chat and prompt = ?p and send = echo_provider
      and cfg = example_config and hf = Missing] h
  obtain response
    where "get_gemini_response echo_provider (GOOGLE_API_KEY example_config) ?p
             (raw_text initial_chat) [] = Inr response"
      and step: "chat_input echo_provider example_config (Some ?p) (Missing, initial_chat) =
            ((save_history (lit ''Chat: '' @ take 20 ?p @ lit ''...'')
                [\<lparr>role = lit ''user'', content = ?p\<rparr>,
                 \<lparr>role = lit ''assistant'', content = response\<rparr>] Missing,
              initial_chat\<lparr>messages := [\<lparr>role = lit ''user'', content = ?p\<rparr>,
                               \<lparr>role = lit ''assistant'', content = response\<rparr>],
                  current_session_name := lit ''Chat: '' @ take 20 ?p @ lit ''...''\<rparr>), None)"
    by blast
  with g have "response = ?p"
    by simp
  with step have "chat_input echo_provider example_config (Some ?p) (Missing, initial_chat) =
            ((save_history (lit ''Chat: What is gravity?...'')
                [\<lparr>role = lit ''user'', content = ?p\<rparr>,
                 \<lparr>role = lit ''assistant'', content = ?p\<rparr>] Missing,
              initial_chat\<lparr>messages := [\<lparr>role = lit ''user'', content = ?p\<rparr>,
                               \<lparr>role = lit ''assistant'', content = ?p\<rparr>],
                  current_session_name := lit ''Chat: What is gravity?...''\<rparr>), None)"
    by (simp only: nm)
  with h show ?thesis
    by (simp add: save_history_def load_history_def)
qed

section \<open>Document extraction\<close>

lemma str_split_nonempty: "str_split sep s \<noteq> []"
  by (induction s) (auto split: list.splits)

lemma last_item_nonempty: "xs \<noteq> [] \<Longrightarrow> last_item xs = Inr (last xs)"
  by (cases xs rule: rev_cases) (simp_all add: last_item_def)

lemma file_ext_value:
  "file_ext lib f = Inr (str_lower (unicode_lower lib) (last (str_split 46 (name f))))"
  by (simp add: file_ext_def last_item_nonempty str_split_nonempty)

lemma push_Inr: "push c (Inr cs) = Inr (c # cs)"
  by (simp add: push_def)

lemma utf8_ascii: "list_all (\<lambda>b. b < 128) bs \<Longrightarrow> utf8 bs = Inr bs"
  by (induction bs) (simp_all add: push_Inr)

lemma decode_utf8_ascii:
  assumes "list_all (\<lambda>b. b < 128) bs"
  shows "decode_utf8 bs = Inr (map unat bs)"
proof -
  from assms have "list_all (\<lambda>b. b < 128) (map unat bs)"
    by (induction bs) (simp_all add: word_less_nat_alt)
  then show ?thesis
    unfolding decode_utf8_def by (rule utf8_ascii)
qed

lemma extensions_distinct:
  "lit ''txt'' \<noteq> lit ''pdf''" "lit ''txt'' \<noteq> lit ''docx''" "lit ''txt'' \<noteq> lit ''pptx''"
  "lit ''txt'' \<noteq> lit ''xlsx''"
  by (simp_all add: lit_def)

text \<open>
  C9. \<^verbatim>\<open>get_file_text\<close> looks at the file name only through the lowered piece after its
  last dot, which always exists. When that extension is none of pdf, docx, pptx, xlsx and
  txt, the text is empty and no exception was caught or raised. When it is txt, the text
  is the UTF-8 decoding of the file's bytes; bytes that are not well-formed UTF-8 give
  the empty text and an error message instead. In particular ASCII bytes give exactly
  their characters.
\<close>

theorem get_file_text_dispatch:
  "file_ext lib f = Inr (str_lower (unicode_lower lib) (last (str_split 46 (name f)))) \<and>
   (\<forall>ext. file_ext lib f = Inr ext \<and>
          ext \<notin> {lit ''pdf'', lit ''docx'', lit ''pptx'', lit ''xlsx'', lit ''txt''}
      \<longrightarrow> get_file_text lib f = ([], None)) \<and>
   (file_ext lib f = Inr (lit ''txt'')
      \<longrightarrow> get_file_text lib f =
            (case decode_utf8 (getvalue f) of Inr t \<Rightarrow> (t, None) | Inl e \<Rightarrow> ([], Some e))) \<and>
   (file_ext lib f = Inr (lit ''txt'') \<and> list_all (\<lambda>b. b < 128) (getvalue f)
      \<longrightarrow> get_file_text lib f = (map unat (getvalue f), None)) \<and>
   (\<forall>g. file_ext lib g = file_ext lib f \<and> getvalue g = getvalue f
      \<longrightarrow> get_file_text lib g = get_file_text lib f) \<and>
   (list_all (\<lambda>c. c < 128) (last (str_split 46 (name f)))
      \<longrightarrow> file_ext lib f = Inr (map ascii_lower (last (str_split 46 (name f)))))"
proof (intro conjI allI impI)
  show "file_ext lib f = Inr (str_lower (unicode_lower lib) (last (str_split 46 (name f))))"
    by (rule file_ext_value)
next
  fix ext
  assume "file_ext lib f = Inr ext \<and>
          ext \<notin> {lit ''pdf'', lit ''docx'', lit ''pptx'', lit ''xlsx'', lit ''txt''}"
  then show "get_file_text lib f = ([], None)"
    by (simp add: get_file_text_def)
next
  assume "file_ext lib f = Inr (lit ''txt'')"
  then show "get_file_text lib f =
            (case decode_utf8 (getvalue f) of Inr t \<Rightarrow> (t, None) | Inl e \<Rightarrow> ([], Some e))"
    by (simp add: get_file_text_def extensions_distinct split: sum.splits)
next
  assume a: "file_ext lib f = Inr (lit ''txt'') \<and> list_all (\<lambda>b. b < 128) (getvalue f)"
  then have "decode_utf8 (getvalue f) = Inr (map unat (getvalue f))"
    by (simp add: decode_utf8_ascii)
  with a show "get_file_text lib f = (map unat (getvalue f), None)"
    by (simp add: get_file_text_def extensions_distinct)
next
  fix g
  assume "file_ext lib g = file_ext lib f \<and> getvalue g = getvalue f"
  then have e: "file_ext lib g = file_ext lib f" and v: "getvalue g = getvalue f"
    by simp_all
  show "get_file_text lib g = get_file_text lib f"
    by (simp only: get_file_text_def e v)
next
  assume "list_all (\<lambda>c. c < 128) (last (str_split 46 (name f)))"
  then show "file_ext lib f = Inr (map ascii_lower (last (str_split 46 (name f))))"
    by (simp add: file_ext_value str_lower_def)
qed

theorem get_file_text_dispatch_witness:
  "file_ext example_libraries hello_txt = Inr (lit ''txt'') \<and>
   get_file_text example_libraries hello_txt = (lit ''hello'', None) \<and>
   file_ext example_libraries hello_xyz = Inr (lit ''xyz'') \<and>
   lit ''xyz'' \<notin> {lit ''pdf'', lit ''docx'', lit ''pptx'', lit ''xlsx'', lit ''txt''} \<and>
   get_file_text example_libraries hello_xyz = ([], None)"
proof -
  have piece: "last (str_split 46 (name hello_txt)) = lit ''TXT''"
    "last (str_split 46 (name hello_xyz)) = lit ''xyz''"
    by (simp_all add: hello_txt_def hello_xyz_def lit_def)
  have ascii: "list_all (\<lambda>c. c < 128) (lit ''TXT'')" "list_all (\<lambda>c. c < 128) (lit ''xyz'')"
    by (simp_all add: lit_def)
  have low: "map ascii_lower (lit ''TXT'') = lit ''txt''" "map ascii_lower (lit ''xyz'') = lit ''xyz''"
    by (simp_all add: lit_def ascii_lower_def)
  have bytes: "list_all (\<lambda>b. b < 128) (getvalue hello_txt)"
    by (simp add: hello_txt_def)
  have val: "map unat (getvalue hello_txt) = lit ''hello''"
    by (simp add: hello_txt_def lit_def)
  have other: "lit ''xyz'' \<notin> {lit ''pdf'', lit ''docx'', lit ''pptx'', lit ''xlsx'', lit ''txt''}"
    by (simp add: lit_def)
  note i1 = get_file_text_dispatch [where lib = example_libraries and f = hello_txt,
      unfolded piece]
  note i2 = get_file_text_dispatch [where lib = example_libraries and f = hello_xyz,
      unfolded piece]
  from i1 ascii(1) have "file_ext example_libraries hello_txt = Inr (map ascii_lower (lit ''TXT''))"
    by blast
  then have a: "file_ext example_libraries hello_txt = Inr (lit ''txt'')"
    by (simp only: low)
  from i1 a bytes
  have "get_file_text example_libraries hello_txt = (map unat (getvalue hello_txt), None)"
    by blast
  then have b: "get_file_text example_libraries hello_txt = (lit ''hello'', None)"
    by (simp only: val)
  from i2 ascii(2) have "file_ext example_libraries hello_xyz = Inr (map ascii_lower (lit ''xyz''))"
    by blast
  then have c: "file_ext example_libraries hello_xyz = Inr (lit ''xyz'')"
    by (simp only: low)
  have d: "get_file_text example_libraries hello_xyz = ([], None)"
    using i2 c other by blast
  from a b c other d show ?thesis
    by blast
qed

end
